theory Spec2Isabelle
  imports Main "HOL-Library.AList" "HOL-Library.Word"
begin

unbundle bit_operations_syntax

section \<open>Python values\<close>

text \<open>
  The values \<^verbatim>\<open>json.loads\<close> produces. A Python \<^verbatim>\<open>dict\<close> keeps its keys in
  insertion order and the scraper iterates over the cache in that order, so an object is
  an association list. A float is kept as its 64 IEEE bits: the scraper only ever asks
  whether it is zero.
\<close>

datatype json =
    JNull
  | JBool bool
  | JInt int
  | JFloat "64 word"
  | JStr string
  | JArr "json list"
  | JObj "(string \<times> json) list"

type_synonym dict = "(string \<times> json) list"

text \<open>The exceptions the scraper can raise and does not catch.\<close>

datatype py_error = AttributeError | TypeError

text \<open>\<^verbatim>\<open>bool(v)\<close>: what \<^verbatim>\<open>if v:\<close> tests.\<close>

fun truthy :: "json \<Rightarrow> bool" where
  "truthy JNull = False"
| "truthy (JBool b) = b"
| "truthy (JInt i) = (i \<noteq> 0)"
| "truthy (JFloat w) = (push_bit 1 w \<noteq> 0)"
| "truthy (JStr s) = (s \<noteq> [])"
| "truthy (JArr xs) = (xs \<noteq> [])"
| "truthy (JObj kvs) = (kvs \<noteq> [])"

text \<open>\<^verbatim>\<open>d.get(k)\<close>, \<^verbatim>\<open>k in d\<close>, \<^verbatim>\<open>d[k] = v\<close> and \<^verbatim>\<open>d.pop(k)\<close> on a dict with string keys.
  An assignment to an existing key keeps the key's place, a new key goes to the end.\<close>

definition dict_get :: "dict \<Rightarrow> string \<Rightarrow> json option" where
  "dict_get d k = map_of d k"

definition dict_has :: "dict \<Rightarrow> string \<Rightarrow> bool" where
  "dict_has d k = (map_of d k \<noteq> None)"

definition dict_set :: "dict \<Rightarrow> string \<Rightarrow> json \<Rightarrow> dict" where
  "dict_set d k v = AList.update k v d"

definition dict_pop :: "dict \<Rightarrow> string \<Rightarrow> dict" where
  "dict_pop d k = AList.delete k d"

text \<open>\<^verbatim>\<open>if x in d: ... d[x]\<close> for an arbitrary value \<open>x\<close>: a list or a dict is
  unhashable and the test raises; any other value that is not a string equals no key.\<close>

fun dict_find :: "dict \<Rightarrow> json \<Rightarrow> py_error + json option" where
  "dict_find d (JStr k) = Inr (dict_get d k)"
| "dict_find d (JArr xs) = Inl TypeError"
| "dict_find d (JObj kvs) = Inl TypeError"
| "dict_find d v = Inr None"

text \<open>\<^verbatim>\<open>s.startswith(p)\<close> and \<^verbatim>\<open>s.replace(old, new)\<close>.\<close>

definition startswith :: "string \<Rightarrow> string \<Rightarrow> bool" where
  "startswith s p = (take (length p) s = p)"

function replace :: "string \<Rightarrow> string \<Rightarrow> string \<Rightarrow> string" where
  "replace [] new s = new @ concat (map (\<lambda>c. c # new) s)"
| "replace (o1 # old) new [] = []"
| "replace (o1 # old) new (c # cs) =
     (if startswith (c # cs) (o1 # old)
      then new @ replace (o1 # old) new (drop (length (o1 # old)) (c # cs))
      else c # replace (o1 # old) new cs)"
  by pat_completeness auto
termination
  by (relation "measure (\<lambda>(old, new, s). length s)") auto

text \<open>\<^verbatim>\<open>str(n)\<close> of an integer: its decimal digits.\<close>

definition digit :: "nat \<Rightarrow> char" where
  "digit n = ''0123456789'' ! n"

function str_nat :: "nat \<Rightarrow> string" where
  "str_nat n = (if n < 10 then [digit n] else str_nat (n div 10) @ [digit (n mod 10)])"
  by pat_completeness auto
termination
  by (relation "measure id") auto

declare str_nat.simps [simp del]

definition str_int :: "int \<Rightarrow> string" where
  "str_int i = (if i < 0 then CHR ''-'' # str_nat (nat (- i)) else str_nat (nat i))"

text \<open>
  \<^verbatim>\<open>str(v)\<close>, which an f-string uses too. On a float, a list or a dict Python prints the
  \<^verbatim>\<open>repr\<close>, which is a parameter \<open>r\<close> of the model.
\<close>

fun py_str :: "(json \<Rightarrow> string) \<Rightarrow> json \<Rightarrow> string" where
  "py_str r JNull = ''None''"
| "py_str r (JBool b) = (if b then ''True'' else ''False'')"
| "py_str r (JInt i) = str_int i"
| "py_str r (JStr s) = s"
| "py_str r v = r v"

section \<open>Configuration, statistics and the scraper's state\<close>

text \<open>The fields of \<^verbatim>\<open>Config\<close> that the scraper reads.\<close>

record config =
  zip_code :: string
  radius_miles :: int
  search_categories :: "string list"
  test_mode :: bool
  test_limit :: int
  request_delay_min :: int
  request_delay_max :: int

record scrape_stats =
  items_found :: int
  items_added :: int
  items_updated :: int
  errors :: int
  pages_scraped :: int

text \<open>
  What the scraper does to the outside world, in order: a GET of a URL, the
  \<^verbatim>\<open>time.sleep(wait_time)\<close> of the retry loop with its seconds, and \<^verbatim>\<open>_delay()\<close>, which
  sleeps for \<^verbatim>\<open>random.uniform\<close> of the two bounds it is given.
\<close>

datatype event = Get string | Sleep int | Delay int int

text \<open>
  The text of a response, as far as \<^verbatim>\<open>BeautifulSoup\<close> and \<^verbatim>\<open>json.loads\<close> show it to the
  scraper: the \<^verbatim>\<open>hibid-state\<close> script is missing (or has no text), its text is not JSON
  (\<^verbatim>\<open>JSONDecodeError\<close>), the parser raises another exception, or the text parses to a value.
  \<open>Empty\<close> is the empty response text, which \<^verbatim>\<open>if not html\<close> takes for a failed fetch.
\<close>

datatype state_script = Missing | Malformed | ParserError | Parsed json

datatype html = Empty | Doc state_script

datatype response = RequestException | Text html

text \<open>The network: the answer to the \<open>k\<close>-th GET of the session (counted from 0), for a URL.\<close>

type_synonym net = "nat \<Rightarrow> string \<Rightarrow> response"

record scraper =
  stats :: scrape_stats
  requests :: nat
  trace :: "event list"

definition ITEMS_PER_PAGE :: int where
  "ITEMS_PER_PAGE = 100"

definition HIBID_BASE_URL :: string where
  "HIBID_BASE_URL = ''https://hibid.com''"

definition log_event :: "event \<Rightarrow> scraper \<Rightarrow> scraper" where
  "log_event e s = s\<lparr>trace := trace s @ [e]\<rparr>"

definition add_error :: "scraper \<Rightarrow> scraper" where
  "add_error s = s\<lparr>stats := (stats s)\<lparr>errors := errors (stats s) + 1\<rparr>\<rparr>"

definition delay :: "config \<Rightarrow> scraper \<Rightarrow> scraper" where
  "delay cfg s = log_event (Delay (request_delay_min cfg) (request_delay_max cfg)) s"

definition build_url :: "config \<Rightarrow> string option \<Rightarrow> int \<Rightarrow> string" where
  "build_url cfg category page =
     (let url = (case category of
                   None \<Rightarrow> HIBID_BASE_URL @ ''/lots/''
                 | Some c \<Rightarrow> if c \<noteq> [] then HIBID_BASE_URL @ ''/lots/'' @ c @ ''/''
                             else HIBID_BASE_URL @ ''/lots/'')
      in url @ ''?'' @ ''status=open'' @ ''&zip='' @ zip_code cfg
           @ ''&miles='' @ str_int (radius_miles cfg)
           @ ''&apage='' @ str_int page
           @ ''&ipp='' @ str_int ITEMS_PER_PAGE)"

section \<open>Fetching a page\<close>

text \<open>
  \<^verbatim>\<open>for attempt in range(retries)\<close>: the list holds the attempts still to make. A GET
  returns the text or raises \<^verbatim>\<open>RequestException\<close>; the empty list is the \<^verbatim>\<open>return None\<close>
  after the loop.
\<close>

fun fetch_attempts :: "net \<Rightarrow> string \<Rightarrow> int \<Rightarrow> nat list \<Rightarrow> scraper \<Rightarrow> html option \<times> scraper" where
  "fetch_attempts nt url retries [] s = (None, s)"
| "fetch_attempts nt url retries (attempt # rest) s =
     (let s1 = log_event (Get url) (s\<lparr>requests := requests s + 1\<rparr>) in
      case nt (requests s) url of
        Text h \<Rightarrow> (Some h, s1)
      | RequestException \<Rightarrow>
          if int attempt < retries - 1
          then fetch_attempts nt url retries rest (log_event (Sleep ((int attempt + 1) * 5)) s1)
          else (None, add_error s1))"

definition fetch_page :: "net \<Rightarrow> string \<Rightarrow> int \<Rightarrow> scraper \<Rightarrow> html option \<times> scraper" where
  "fetch_page nt url retries s = fetch_attempts nt url retries [0 ..< nat retries] s"

section \<open>Extracting the cache\<close>

definition extract_apollo_state :: "html \<Rightarrow> scraper \<Rightarrow> json option \<times> scraper" where
  "extract_apollo_state h s =
     (case h of
        Empty \<Rightarrow> (None, s)
      | Doc Missing \<Rightarrow> (None, s)
      | Doc Malformed \<Rightarrow> (None, add_error s)
      | Doc ParserError \<Rightarrow> (None, add_error s)
      | Doc (Parsed (JObj state_data)) \<Rightarrow>
          (case dict_get state_data ''apollo.state'' of
             None \<Rightarrow> (Some (JObj []), s)
           | Some v \<Rightarrow> (Some v, s))
      | Doc (Parsed _) \<Rightarrow> (None, add_error s))"

section \<open>The item identifier\<close>

text \<open>\<^verbatim>\<open>for field in [...]: if field in item and item[field]: return str(item[field])\<close>.\<close>

fun first_id_field :: "(json \<Rightarrow> string) \<Rightarrow> dict \<Rightarrow> string list \<Rightarrow> string option" where
  "first_id_field r item [] = None"
| "first_id_field r item (field # others) =
     (case dict_get item field of
        Some v \<Rightarrow> if truthy v then Some (py_str r v) else first_id_field r item others
      | None \<Rightarrow> first_id_field r item others)"

definition get_item_id :: "(json \<Rightarrow> string) \<Rightarrow> dict \<Rightarrow> string option" where
  "get_item_id r item =
     (case first_id_field r item [''id'', ''itemId'', ''eventItemId''] of
        Some i \<Rightarrow> Some i
      | None \<Rightarrow>
          (let typename = (case dict_get item ''__typename'' of None \<Rightarrow> JStr [] | Some t \<Rightarrow> t) in
           if typename = JStr ''Lot'' \<and> dict_has item ''id''
           then Some (''lot-'' @ py_str r (the (dict_get item ''id'')))
           else None))"

section \<open>Resolving references\<close>

text \<open>
  The first pass of \<^verbatim>\<open>_extract_lots_from_apollo\<close>: every Auction entity goes into the
  index under its own key and under \<^verbatim>\<open>Auction:<id>\<close>. A missing \<^verbatim>\<open>id\<close> is Python's
  \<^verbatim>\<open>None\<close>, as a null one is.
\<close>

fun collect_auctions :: "(json \<Rightarrow> string) \<Rightarrow> dict \<Rightarrow> dict \<Rightarrow> dict" where
  "collect_auctions r [] auctions = auctions"
| "collect_auctions r ((key, value) # rest) auctions =
     (case value of
        JObj v \<Rightarrow>
          if dict_get v ''__typename'' = Some (JStr ''Auction'') \<or> startswith key ''Auction:''
          then
            (let auction_id =
               (if startswith key ''Auction:'' then replace ''Auction:'' [] key
                else py_str r (case dict_get v ''id'' of None \<Rightarrow> JNull | Some i \<Rightarrow> i))
             in collect_auctions r rest
                  (dict_set (dict_set auctions key value) (''Auction:'' @ auction_id) value))
          else collect_auctions r rest auctions
      | _ \<Rightarrow> collect_auctions r rest auctions)"

text \<open>
  One block of the second pass, which the source writes twice (for \<^verbatim>\<open>auction\<close> against
  the index of auctions, for \<^verbatim>\<open>lotState\<close> against the whole cache): when the field is a
  dict with a \<^verbatim>\<open>__ref\<close> that is a key of the index, the target is stored under \<open>name\<close>.
\<close>

definition resolve_ref :: "dict \<Rightarrow> string \<Rightarrow> dict \<Rightarrow> string \<Rightarrow> py_error + dict" where
  "resolve_ref lot field index name =
     (case dict_get lot field of
        Some (JObj ref) \<Rightarrow>
          (case dict_get ref ''__ref'' of
             Some ref_key \<Rightarrow>
               (case dict_find index ref_key of
                  Inl e \<Rightarrow> Inl e
                | Inr (Some target) \<Rightarrow> Inr (dict_set lot name target)
                | Inr None \<Rightarrow> Inr lot)
           | None \<Rightarrow> Inr lot)
      | _ \<Rightarrow> Inr lot)"

definition is_lot :: "string \<times> json \<Rightarrow> bool" where
  "is_lot kv =
     (case snd kv of
        JObj v \<Rightarrow> dict_get v ''__typename'' = Some (JStr ''Lot'') \<or> startswith (fst kv) ''Lot:''
      | _ \<Rightarrow> False)"

fun collect_lots :: "dict \<Rightarrow> dict \<Rightarrow> dict \<Rightarrow> py_error + dict list" where
  "collect_lots auctions apollo_state [] = Inr []"
| "collect_lots auctions apollo_state ((key, value) # rest) =
     (case value of
        JObj v \<Rightarrow>
          if is_lot (key, value)
          then
            (case resolve_ref v ''auction'' auctions ''_resolved_auction'' of
               Inl e \<Rightarrow> Inl e
             | Inr lot1 \<Rightarrow>
                 (case resolve_ref lot1 ''lotState'' apollo_state ''_resolved_lotState'' of
                    Inl e \<Rightarrow> Inl e
                  | Inr lot2 \<Rightarrow>
                      (case collect_lots auctions apollo_state rest of
                         Inl e \<Rightarrow> Inl e
                       | Inr lots \<Rightarrow> Inr (lot2 # lots))))
          else collect_lots auctions apollo_state rest
      | _ \<Rightarrow> collect_lots auctions apollo_state rest)"

text \<open>A value that is no dict has no \<^verbatim>\<open>items()\<close>.\<close>

definition extract_lots_from_apollo :: "(json \<Rightarrow> string) \<Rightarrow> json \<Rightarrow> py_error + dict list" where
  "extract_lots_from_apollo r apollo_state =
     (case apollo_state of
        JObj st \<Rightarrow> collect_lots (collect_auctions r st []) st st
      | _ \<Rightarrow> Inl AttributeError)"

definition enrich_lot_data :: "dict \<Rightarrow> dict" where
  "enrich_lot_data lot =
     (let e1 = (case dict_get lot ''_resolved_auction'' of
                  Some auction \<Rightarrow> dict_set (dict_pop lot ''_resolved_auction'') ''auction_data'' auction
                | None \<Rightarrow> lot);
          e2 = (case dict_get e1 ''_resolved_lotState'' of
                  Some lot_state \<Rightarrow>
                    dict_set (dict_pop e1 ''_resolved_lotState'') ''lot_state_data'' lot_state
                | None \<Rightarrow> e1);
          e3 = (case dict_get e2 ''auction'' of
                  Some (JObj a) \<Rightarrow>
                    (case dict_get a ''__ref'' of
                       Some ref_key \<Rightarrow> dict_set (dict_pop e2 ''auction'') ''auction_ref'' ref_key
                     | None \<Rightarrow> e2)
                | _ \<Rightarrow> e2);
          e4 = (case dict_get e3 ''lotState'' of
                  Some (JObj a) \<Rightarrow>
                    (case dict_get a ''__ref'' of
                       Some ref_key \<Rightarrow> dict_set (dict_pop e3 ''lotState'') ''lot_state_ref'' ref_key
                     | None \<Rightarrow> e3)
                | _ \<Rightarrow> e3)
      in e4)"

section \<open>Scraping a category\<close>

text \<open>\<^verbatim>\<open>test_limit = self.config.test_limit if self.config.test_mode else float("inf")\<close>:
  \<open>None\<close> is the infinite limit.\<close>

definition limit_of :: "config \<Rightarrow> int option" where
  "limit_of cfg = (if test_mode cfg then Some (test_limit cfg) else None)"

definition below_limit :: "int \<Rightarrow> int option \<Rightarrow> bool" where
  "below_limit total_items lim = (case lim of None \<Rightarrow> True | Some l \<Rightarrow> total_items < l)"

text \<open>\<^verbatim>\<open>if item_id\<close>: the identifier is neither \<^verbatim>\<open>None\<close> nor the empty string.\<close>

definition id_truthy :: "string option \<Rightarrow> bool" where
  "id_truthy i = (case i of None \<Rightarrow> False | Some x \<Rightarrow> x \<noteq> [])"

text \<open>The loop that fills \<^verbatim>\<open>new_lots\<close> and \<^verbatim>\<open>seen_ids\<close>.\<close>

fun filter_new :: "(json \<Rightarrow> string) \<Rightarrow> dict list \<Rightarrow> string set \<Rightarrow> dict list \<times> string set" where
  "filter_new r [] seen_ids = ([], seen_ids)"
| "filter_new r (lot # lots) seen_ids =
     (let item_id = get_item_id r lot in
      if id_truthy item_id \<and> the item_id \<notin> seen_ids
      then (case filter_new r lots (insert (the item_id) seen_ids) of
              (new_lots, seen') \<Rightarrow> (lot # new_lots, seen'))
      else filter_new r lots seen_ids)"

text \<open>
  The loop over \<^verbatim>\<open>new_lots\<close> that yields: the result holds what was yielded, the new
  \<^verbatim>\<open>total_items\<close>, the new state, and whether the loop ended by \<^verbatim>\<open>return\<close>.
\<close>

fun emit_lots ::
  "(json \<Rightarrow> string) \<Rightarrow> int option \<Rightarrow> dict list \<Rightarrow> int \<Rightarrow> scraper
     \<Rightarrow> (string \<times> dict) list \<times> int \<times> scraper \<times> bool" where
  "emit_lots r lim [] total_items s = ([], total_items, s, False)"
| "emit_lots r lim (lot # lots) total_items s =
     (if \<not> below_limit total_items lim then ([], total_items, s, True)
      else
        (let item_id = get_item_id r lot in
         if id_truthy item_id
         then
           (let enriched_lot = enrich_lot_data lot;
                s1 = s\<lparr>stats := (stats s)\<lparr>items_found := items_found (stats s) + 1\<rparr>\<rparr> in
            case emit_lots r lim lots (total_items + 1) s1 of
              (out, total', s', returned) \<Rightarrow> ((the item_id, enriched_lot) # out, total', s', returned))
         else emit_lots r lim lots total_items (add_error s)))"

text \<open>How one turn of the \<^verbatim>\<open>while\<close> loop ends: the next page follows, the generator is
  finished (\<^verbatim>\<open>break\<close> or \<^verbatim>\<open>return\<close>), or an exception leaves it.\<close>

datatype control = Continue | Finished | Raised py_error

definition scrape_page ::
  "(json \<Rightarrow> string) \<Rightarrow> net \<Rightarrow> config \<Rightarrow> string option \<Rightarrow> int \<Rightarrow> int \<Rightarrow> string set \<Rightarrow> scraper
     \<Rightarrow> (string \<times> dict) list \<times> int \<times> string set \<times> scraper \<times> control" where
  "scrape_page r nt cfg category page total_items seen_ids s =
     (let url = build_url cfg category page in
      case fetch_page nt url 3 s of (fetched, s1) \<Rightarrow>
        (case fetched of
           None \<Rightarrow> ([], total_items, seen_ids, s1, Finished)
         | Some h \<Rightarrow>
             if h = Empty then ([], total_items, seen_ids, s1, Finished)
             else
               (case extract_apollo_state h s1 of (extracted, s2) \<Rightarrow>
                  (case extracted of
                     None \<Rightarrow> ([], total_items, seen_ids, s2, Finished)
                   | Some apollo_state \<Rightarrow>
                       if \<not> truthy apollo_state then ([], total_items, seen_ids, s2, Finished)
                       else
                         (case extract_lots_from_apollo r apollo_state of
                            Inl e \<Rightarrow> ([], total_items, seen_ids, s2, Raised e)
                          | Inr lots \<Rightarrow>
                              (let s3 = s2\<lparr>stats := (stats s2)
                                          \<lparr>pages_scraped := pages_scraped (stats s2) + 1\<rparr>\<rparr> in
                               case filter_new r lots seen_ids of (new_lots, seen') \<Rightarrow>
                                 if new_lots = [] then ([], total_items, seen', s3, Finished)
                                 else
                                   (case emit_lots r (limit_of cfg) new_lots total_items s3 of
                                      (out, total', s4, returned) \<Rightarrow>
                                        if returned then (out, total', seen', s4, Finished)
                                        else if int (length lots) < ITEMS_PER_PAGE div 2
                                        then (out, total', seen', s4, Finished)
                                        else (out, total', seen', s4, Continue))))))))"

text \<open>
  The \<^verbatim>\<open>while\<close> loop, with the generator run to its end as the \<^verbatim>\<open>for\<close> loop of
  \<^verbatim>\<open>main.py\<close> runs it. It may run for ever (a site that always has another full page of
  new lots), so it takes fuel, one unit for a page: \<open>None\<close> is a loop that has not ended
  when the fuel has. A result holds what the generator yielded, the state it left, and the
  exception that ended it, if one did.
\<close>

fun scrape_loop ::
  "nat \<Rightarrow> (json \<Rightarrow> string) \<Rightarrow> net \<Rightarrow> config \<Rightarrow> string option \<Rightarrow> int \<Rightarrow> int \<Rightarrow> string set \<Rightarrow> scraper
     \<Rightarrow> ((string \<times> dict) list \<times> scraper \<times> py_error option) option" where
  "scrape_loop fuel r nt cfg category page total_items seen_ids s =
     (if \<not> below_limit total_items (limit_of cfg) then Some ([], s, None)
      else
        (case fuel of
           0 \<Rightarrow> None
         | Suc fuel' \<Rightarrow>
             (case scrape_page r nt cfg category page total_items seen_ids s of
                (out, total', seen', s', Finished) \<Rightarrow> Some (out, s', None)
              | (out, total', seen', s', Raised e) \<Rightarrow> Some (out, s', Some e)
              | (out, total', seen', s', Continue) \<Rightarrow>
                  (case scrape_loop fuel' r nt cfg category (page + 1) total' seen' (delay cfg s') of
                     None \<Rightarrow> None
                   | Some (out2, s2, e) \<Rightarrow> Some (out @ out2, s2, e)))))"

declare scrape_loop.simps [simp del]

definition scrape_category ::
  "nat \<Rightarrow> (json \<Rightarrow> string) \<Rightarrow> net \<Rightarrow> config \<Rightarrow> string option \<Rightarrow> scraper
     \<Rightarrow> ((string \<times> dict) list \<times> scraper \<times> py_error option) option" where
  "scrape_category fuel r nt cfg category s = scrape_loop fuel r nt cfg category 1 0 {} s"

section \<open>Scraping all categories\<close>

text \<open>The \<^verbatim>\<open>for\<close> loop of \<^verbatim>\<open>scrape_all\<close> over the categories still to do; \<open>categories\<close> is
  the whole list, of which the loop reads the last element.\<close>

fun scrape_categories ::
  "nat \<Rightarrow> (json \<Rightarrow> string) \<Rightarrow> net \<Rightarrow> config \<Rightarrow> string option list \<Rightarrow> string option list \<Rightarrow> scraper
     \<Rightarrow> ((string \<times> dict \<times> string option) list \<times> scraper \<times> py_error option) option" where
  "scrape_categories fuel r nt cfg categories [] s = Some ([], s, None)"
| "scrape_categories fuel r nt cfg categories (category # rest) s =
     (case scrape_category fuel r nt cfg category s of
        None \<Rightarrow> None
      | Some (items, s1, Some e) \<Rightarrow> Some (map (\<lambda>(item_id, item). (item_id, item, category)) items, s1, Some e)
      | Some (items, s1, None) \<Rightarrow>
          (let out = map (\<lambda>(item_id, item). (item_id, item, category)) items in
           if test_mode cfg \<and> items_found (stats s1) \<ge> test_limit cfg then Some (out, s1, None)
           else
             (let s2 = (if category \<noteq> last categories then delay cfg s1 else s1) in
              case scrape_categories fuel r nt cfg categories rest s2 of
                None \<Rightarrow> None
              | Some (out2, s3, e) \<Rightarrow> Some (out @ out2, s3, e))))"

definition scrape_all ::
  "nat \<Rightarrow> (json \<Rightarrow> string) \<Rightarrow> net \<Rightarrow> config \<Rightarrow> scraper
     \<Rightarrow> ((string \<times> dict \<times> string option) list \<times> scraper \<times> py_error option) option" where
  "scrape_all fuel r nt cfg s =
     (let categories = (if search_categories cfg = [] then [None]
                        else map Some (search_categories cfg))
      in scrape_categories fuel r nt cfg categories categories s)"

text \<open>A fresh \<^verbatim>\<open>HiBidScraper\<close>: \<^verbatim>\<open>ScrapeStats()\<close>, and nothing done yet.\<close>

definition new_scraper :: scraper where
  "new_scraper =
     \<lparr>stats = \<lparr>items_found = 0, items_added = 0, items_updated = 0, errors = 0, pages_scraped = 0\<rparr>,
      requests = 0, trace = []\<rparr>"

section \<open>Notions of the statements\<close>

text \<open>\<^verbatim>\<open>field in item and item[field]\<close>.\<close>

definition field_truthy :: "dict \<Rightarrow> string \<Rightarrow> bool" where
  "field_truthy item f = (case dict_get item f of None \<Rightarrow> False | Some v \<Rightarrow> truthy v)"

text \<open>What the generator yields for a lot: \<^verbatim>\<open>(item_id, enriched_lot)\<close>.\<close>

definition item_of :: "(json \<Rightarrow> string) \<Rightarrow> dict \<Rightarrow> string \<times> dict" where
  "item_of r lot = (the (get_item_id r lot), enrich_lot_data lot)"

text \<open>The state after \<^verbatim>\<open>self.stats.pages_scraped += 1\<close>, and after \<open>k\<close> turns of
  \<^verbatim>\<open>self.stats.items_found += 1\<close>.\<close>

definition page_counted :: "scraper \<Rightarrow> scraper" where
  "page_counted s = s\<lparr>stats := (stats s)\<lparr>pages_scraped := pages_scraped (stats s) + 1\<rparr>\<rparr>"

definition found :: "nat \<Rightarrow> scraper \<Rightarrow> scraper" where
  "found k s = s\<lparr>stats := (stats s)\<lparr>items_found := items_found (stats s) + int k\<rparr>\<rparr>"

text \<open>How many of \<open>n\<close> new lots the limit still lets through when \<open>total_items\<close> have
  been yielded: all of them outside test mode.\<close>

definition quota :: "int option \<Rightarrow> int \<Rightarrow> nat \<Rightarrow> nat" where
  "quota lim total_items n = (case lim of None \<Rightarrow> n | Some l \<Rightarrow> min n (nat (l - total_items)))"


text \<open>The identifiers of a page: those of its lots that have one.\<close>

definition page_ids :: "(json \<Rightarrow> string) \<Rightarrow> dict list \<Rightarrow> string set" where
  "page_ids r lots =
     set (map (\<lambda>l. the (get_item_id r l)) (filter (\<lambda>l. id_truthy (get_item_id r l)) lots))"

text \<open>
  The new lots of a page, by position: the lot at \<open>i\<close> is new when it has an identifier that
  is not among the identifiers seen before the page and that no earlier lot of the page has.
\<close>

definition new_at :: "(json \<Rightarrow> string) \<Rightarrow> string set \<Rightarrow> dict list \<Rightarrow> nat \<Rightarrow> bool" where
  "new_at r seen lots i \<longleftrightarrow>
     id_truthy (get_item_id r (lots ! i))
     \<and> the (get_item_id r (lots ! i)) \<notin> seen
     \<and> list_all (\<lambda>l. get_item_id r l \<noteq> get_item_id r (lots ! i)) (take i lots)"

definition new_lots_of :: "(json \<Rightarrow> string) \<Rightarrow> string set \<Rightarrow> dict list \<Rightarrow> dict list" where
  "new_lots_of r seen lots = map (\<lambda>i. lots ! i) (filter (new_at r seen lots) [0 ..< length lots])"
text \<open>The \<^verbatim>\<open>__ref\<close> of a field of a lot, when the field is a dict that has one.\<close>

definition ref_of :: "dict \<Rightarrow> string \<Rightarrow> json option" where
  "ref_of lot field =
     (case dict_get lot field of Some (JObj a) \<Rightarrow> dict_get a ''__ref'' | _ \<Rightarrow> None)"

text \<open>A value Python can look up in a dict: anything but a list or a dict. A cache has
  hashable references when the \<^verbatim>\<open>auction\<close> and \<^verbatim>\<open>lotState\<close> references of its lots are.\<close>

definition hashable :: "json \<Rightarrow> bool" where
  "hashable v = (case v of JArr xs \<Rightarrow> False | JObj kvs \<Rightarrow> False | _ \<Rightarrow> True)"

definition ref_hashable :: "dict \<Rightarrow> string \<Rightarrow> bool" where
  "ref_hashable lot field = (case ref_of lot field of None \<Rightarrow> True | Some k \<Rightarrow> hashable k)"

definition refs_hashable :: "dict \<Rightarrow> bool" where
  "refs_hashable cache =
     list_all (\<lambda>kv. case snd kv of
                      JObj v \<Rightarrow> ref_hashable v ''auction'' \<and> ref_hashable v ''lotState''
                    | _ \<Rightarrow> True)
       (filter is_lot cache)"

text \<open>The entities the first pass of the resolver takes for auctions.\<close>

definition is_auction :: "string \<times> json \<Rightarrow> bool" where
  "is_auction kv =
     (case snd kv of
        JObj v \<Rightarrow> dict_get v ''__typename'' = Some (JStr ''Auction'') \<or> startswith (fst kv) ''Auction:''
      | _ \<Rightarrow> False)"

text \<open>The attribute names the resolver reads or writes.\<close>

definition resolver_fields :: "string list" where
  "resolver_fields =
     [''auction'', ''lotState'', ''_resolved_auction'', ''_resolved_lotState'',
      ''auction_data'', ''lot_state_data'', ''auction_ref'', ''lot_state_ref'']"

text \<open>
  What is stated of one lot \<open>v\<close> of the cache and its record \<open>e\<close>: when the lot has a
  parent-event reference, the reference key is in the record under \<^verbatim>\<open>auction_ref\<close>, as it was
  in the cache; when the key is in the index of auctions, the auction found there is in the
  record under \<^verbatim>\<open>auction_data\<close>; and the attributes the resolver does not handle are those
  of the lot.
\<close>

definition hydrated :: "dict \<Rightarrow> dict \<Rightarrow> dict \<Rightarrow> bool" where
  "hydrated auctions v e \<longleftrightarrow>
     (\<forall>k. ref_of v ''auction'' = Some k \<longrightarrow>
        dict_get e ''auction_ref'' = Some k
        \<and> (\<forall>a. dict_find auctions k = Inr (Some a) \<longrightarrow> dict_get e ''auction_data'' = Some a))
     \<and> (\<forall>f. f \<notin> set resolver_fields \<longrightarrow> dict_get e f = dict_get v f)"

text \<open>The two kinds of step of \<^verbatim>\<open>_enrich_lot_data\<close>: an attribute moved to another name,
  and a reference replaced by its key under another name.\<close>

definition rename_key :: "dict \<Rightarrow> string \<Rightarrow> string \<Rightarrow> dict" where
  "rename_key d src dst =
     (case dict_get d src of Some x \<Rightarrow> dict_set (dict_pop d src) dst x | None \<Rightarrow> d)"

definition unwrap_ref :: "dict \<Rightarrow> string \<Rightarrow> string \<Rightarrow> dict" where
  "unwrap_ref d src dst =
     (case dict_get d src of
        Some (JObj a) \<Rightarrow>
          (case dict_get a ''__ref'' of
             Some k \<Rightarrow> dict_set (dict_pop d src) dst k
           | None \<Rightarrow> d)
      | _ \<Rightarrow> d)"

section \<open>Inputs of the examples\<close>

text \<open>The examples below stringify strings and integers only, so \<^verbatim>\<open>repr\<close> is never
  reached in them.\<close>

definition no_repr :: "json \<Rightarrow> string" where
  "no_repr v = []"

text \<open>A configuration with the given categories, test mode and test limit.\<close>

definition example_config :: "string list \<Rightarrow> bool \<Rightarrow> int \<Rightarrow> config" where
  "example_config categories test l =
     \<lparr>zip_code = ''78414'', radius_miles = 50, search_categories = categories,
      test_mode = test, test_limit = l, request_delay_min = 2, request_delay_max = 5\<rparr>"

text \<open>A cache entry \<^verbatim>\<open>"Lot:<i>": {"__typename": "Lot", "id": "<i>"}\<close>, the fields of the lot 1,
  and the response whose state script holds a cache under \<^verbatim>\<open>apollo.state\<close>.\<close>

definition lot_entry :: "string \<Rightarrow> string \<times> json" where
  "lot_entry i = (''Lot:'' @ i, JObj [(''__typename'', JStr ''Lot''), (''id'', JStr i)])"

definition lot_1 :: dict where
  "lot_1 = [(''__typename'', JStr ''Lot''), (''id'', JStr ''1'')]"


definition lot_n :: "string \<Rightarrow> dict" where
  "lot_n i = [(''__typename'', JStr ''Lot''), (''id'', JStr i)]"
definition page_of :: "dict \<Rightarrow> response" where
  "page_of cache = Text (Doc (Parsed (JObj [(''apollo.state'', JObj cache)])))"

text \<open>A network whose first two GETs fail and whose later ones return a page without the
  state script.\<close>

definition net_two_failures :: net where
  "net_two_failures k url = (if k < 2 then RequestException else Text (Doc Missing))"

text \<open>A site whose pages have no state script, and one whose state script is a JSON
  object without \<^verbatim>\<open>apollo.state\<close>.\<close>

definition net_no_state :: net where
  "net_no_state k url = Text (Doc Missing)"

definition net_no_cache :: net where
  "net_no_cache k url = Text (Doc (Parsed (JObj [(''other'', JInt 1)])))"

text \<open>A site whose pages all hold the single lot 1.\<close>

definition net_one_lot :: net where
  "net_one_lot k url = page_of [lot_entry ''1'']"


text \<open>A site whose pages all hold the lots 1, 2 and 3.\<close>

definition net_three_lots :: net where
  "net_three_lots k url = page_of [lot_entry ''1'', lot_entry ''2'', lot_entry ''3'']"
text \<open>A second cache entry with the identifier 1, and a site whose pages hold both.\<close>

definition second_lot_1 :: "string \<times> json" where
  "second_lot_1 =
     (''Lot:1b'', JObj [(''__typename'', JStr ''Lot''), (''id'', JStr ''1''), (''lead'', JStr ''again'')])"

definition net_duplicate :: net where
  "net_duplicate k url = page_of [lot_entry ''1'', second_lot_1]"

text \<open>A site whose pages hold the lot 1 and a lot with no identifier field.\<close>

definition net_lot_without_id :: net where
  "net_lot_without_id k url =
     page_of [lot_entry ''1'', (''Lot:x'', JObj [(''__typename'', JStr ''Lot'')])]"

text \<open>A site with one lot in category \<^verbatim>\<open>a\<close> and three lots in every other category.\<close>

definition net_small_then_large :: net where
  "net_small_then_large k url =
     (if url = build_url (example_config [''a'', ''b''] True 2) (Some ''a'') 1
      then page_of [lot_entry ''1'']
      else page_of [lot_entry ''2'', lot_entry ''3'', lot_entry ''4''])"

text \<open>A cache with one auction and two lots; the reference of the second lot has no target.\<close>

definition auction_1 :: json where
  "auction_1 = JObj [(''__typename'', JStr ''Auction''), (''eventName'', JStr ''Spring Sale'')]"

definition cache_example :: dict where
  "cache_example =
     [(''Auction:1'', auction_1),
      (''Lot:100'', JObj [(''__typename'', JStr ''Lot''), (''id'', JStr ''100''),
                          (''auction'', JObj [(''__ref'', JStr ''Auction:1'')])]),
      (''Lot:101'', JObj [(''__typename'', JStr ''Lot''), (''id'', JStr ''101''),
                          (''auction'', JObj [(''__ref'', JStr ''Auction:9'')])])]"

section \<open>Fetching and identifying\<close>

lemma range_three: "[0 ..< (3::nat)] = [0, 1, 2]"
  by (simp add: upt_rec)

text \<open>
  C8. \<^verbatim>\<open>_fetch_page\<close> with its three attempts, by the answers of the network to the GETs
  it makes: it stops at the first answer; after the first failure it sleeps 5 seconds and
  after the second 10; only when the third attempt fails too does it return \<^verbatim>\<open>None\<close>, and
  then it counts exactly one error. No case makes more than three GETs.
\<close>

theorem fetch_page_retry_schedule:
  "(nt (requests s) url = Text h \<longrightarrow>
      fetch_page nt url 3 s =
        (Some h, s\<lparr>requests := requests s + 1, trace := trace s @ [Get url]\<rparr>))
 \<and> (nt (requests s) url = RequestException \<and> nt (requests s + 1) url = Text h \<longrightarrow>
      fetch_page nt url 3 s =
        (Some h, s\<lparr>requests := requests s + 2, trace := trace s @ [Get url, Sleep 5, Get url]\<rparr>))
 \<and> (nt (requests s) url = RequestException \<and> nt (requests s + 1) url = RequestException
      \<and> nt (requests s + 2) url = Text h \<longrightarrow>
      fetch_page nt url 3 s =
        (Some h, s\<lparr>requests := requests s + 3,
                    trace := trace s @ [Get url, Sleep 5, Get url, Sleep 10, Get url]\<rparr>))
 \<and> (nt (requests s) url = RequestException \<and> nt (requests s + 1) url = RequestException
      \<and> nt (requests s + 2) url = RequestException \<longrightarrow>
      fetch_page nt url 3 s =
        (None, s\<lparr>stats := (stats s)\<lparr>errors := errors (stats s) + 1\<rparr>,
                 requests := requests s + 3,
                 trace := trace s @ [Get url, Sleep 5, Get url, Sleep 10, Get url]\<rparr>))"
  by (simp add: fetch_page_def range_three log_event_def add_error_def Let_def)

text \<open>Two failures, then a page: the page is returned after two sleeps, and no error is
  counted.\<close>

theorem fetch_page_retry_schedule_witness:
  "net_two_failures 0 ''u'' = RequestException \<and> net_two_failures 1 ''u'' = RequestException
   \<and> net_two_failures 2 ''u'' = Text (Doc Missing)
   \<and> fetch_page net_two_failures ''u'' 3 new_scraper =
     (Some (Doc Missing),
      new_scraper\<lparr>requests := 3, trace := [Get ''u'', Sleep 5, Get ''u'', Sleep 10, Get ''u'']\<rparr>)
   \<and> errors (stats (snd (fetch_page net_two_failures ''u'' 3 new_scraper))) = 0"
  using fetch_page_retry_schedule [of net_two_failures new_scraper "''u''" "Doc Missing"]
  by (simp add: new_scraper_def net_two_failures_def)

text \<open>
  C4. \<^verbatim>\<open>_get_item_id\<close>: the first of \<^verbatim>\<open>id\<close>, \<^verbatim>\<open>itemId\<close>, \<^verbatim>\<open>eventItemId\<close> that is
  present with a truthy value gives the identifier, as its \<^verbatim>\<open>str\<close>. When none is, a lot
  whose type tag is \<^verbatim>\<open>Lot\<close> and which has an \<^verbatim>\<open>id\<close> (a falsy one, then) gets \<^verbatim>\<open>lot-\<close>
  followed by that id. In every other case there is no identifier.
\<close>

theorem get_item_id_priority:
  "get_item_id r item =
     (if field_truthy item ''id'' then Some (py_str r (the (dict_get item ''id'')))
      else if field_truthy item ''itemId'' then Some (py_str r (the (dict_get item ''itemId'')))
      else if field_truthy item ''eventItemId''
        then Some (py_str r (the (dict_get item ''eventItemId'')))
      else if dict_get item ''__typename'' = Some (JStr ''Lot'') \<and> dict_has item ''id''
        then Some (''lot-'' @ py_str r (the (dict_get item ''id'')))
      else None)"
  by (auto simp: get_item_id_def field_truthy_def Let_def split: option.splits)

text \<open>The second of three candidates, the composite for a falsy \<^verbatim>\<open>id\<close>, and no identifier
  for a record that is not typed as a lot.\<close>

theorem get_item_id_priority_witness:
  "get_item_id no_repr [(''id'', JStr []), (''itemId'', JStr ''77''), (''eventItemId'', JStr ''9'')]
     = Some ''77''
   \<and> get_item_id no_repr [(''__typename'', JStr ''Lot''), (''id'', JInt 0)] = Some ''lot-0''
   \<and> get_item_id no_repr [(''__typename'', JStr ''Auction''), (''id'', JInt 0)] = None"
  using get_item_id_priority
    [of no_repr "[(''id'', JStr []), (''itemId'', JStr ''77''), (''eventItemId'', JStr ''9'')]"]
    get_item_id_priority [of no_repr "[(''__typename'', JStr ''Lot''), (''id'', JInt 0)]"]
    get_item_id_priority [of no_repr "[(''__typename'', JStr ''Auction''), (''id'', JInt 0)]"]
  by (simp add: field_truthy_def dict_get_def dict_has_def str_int_def str_nat.simps digit_def)

section \<open>The resolver\<close>

lemma dict_get_set: "dict_get (dict_set d k v) k' = (if k' = k then Some v else dict_get d k')"
  by (simp add: dict_get_def dict_set_def update_conv')

lemma dict_get_pop: "dict_get (dict_pop d k) k' = (if k' = k then None else dict_get d k')"
  by (simp add: dict_get_def dict_pop_def delete_conv')

lemma resolve_ref_total:
  "ref_hashable lot field \<Longrightarrow> \<exists>lot'. resolve_ref lot field index name = Inr lot'"
  by (auto simp: ref_hashable_def ref_of_def resolve_ref_def hashable_def
           split: option.splits json.splits sum.splits)

lemma resolve_ref_get:
  "resolve_ref lot field index name = Inr lot' \<Longrightarrow> f \<noteq> name \<Longrightarrow> dict_get lot' f = dict_get lot f"
  by (auto simp: resolve_ref_def dict_get_set split: option.splits json.splits sum.splits)

lemma resolve_ref_found:
  "resolve_ref lot field index name = Inr lot' \<Longrightarrow> ref_of lot field = Some k \<Longrightarrow>
   dict_find index k = Inr (Some t) \<Longrightarrow> dict_get lot' name = Some t"
  by (auto simp: resolve_ref_def ref_of_def dict_get_set split: option.splits json.splits sum.splits)

lemma ref_of_cong: "dict_get d field = dict_get d' field \<Longrightarrow> ref_of d field = ref_of d' field"
  by (simp add: ref_of_def)

text \<open>\<^verbatim>\<open>_enrich_lot_data\<close> is its four steps in a row.\<close>

lemma enrich_lot_data_steps:
  "enrich_lot_data lot =
     unwrap_ref
       (unwrap_ref
          (rename_key (rename_key lot ''_resolved_auction'' ''auction_data'')
             ''_resolved_lotState'' ''lot_state_data'')
          ''auction'' ''auction_ref'')
       ''lotState'' ''lot_state_ref''"
  unfolding enrich_lot_data_def rename_key_def unwrap_ref_def Let_def ..

lemma rename_key_get:
  "dict_get (rename_key d src dst) f =
     (if dict_get d src = None then dict_get d f
      else if f = dst then dict_get d src
      else if f = src then None
      else dict_get d f)"
  by (cases "dict_get d src") (simp_all add: rename_key_def dict_get_set dict_get_pop)

lemma unwrap_ref_get:
  "dict_get (unwrap_ref d src dst) f =
     (if ref_of d src = None then dict_get d f
      else if f = dst then ref_of d src
      else if f = src then None
      else dict_get d f)"
proof (cases "dict_get d src")
  case None
  then show ?thesis by (simp add: unwrap_ref_def ref_of_def)
next
  case (Some v)
  show ?thesis
  proof (cases v)
    case (JObj a)
    with Some show ?thesis
      by (cases "dict_get a ''__ref''")
         (simp_all add: unwrap_ref_def ref_of_def dict_get_set dict_get_pop)
  qed (simp_all add: Some unwrap_ref_def ref_of_def)
qed

lemma enrich_auction_ref:
  "ref_of lot ''auction'' = Some k \<Longrightarrow> dict_get (enrich_lot_data lot) ''auction_ref'' = Some k"
  by (simp add: enrich_lot_data_steps unwrap_ref_get rename_key_get ref_of_def)

lemma enrich_auction_data:
  "dict_get lot ''_resolved_auction'' = Some a \<Longrightarrow>
   dict_get (enrich_lot_data lot) ''auction_data'' = Some a"
  by (simp add: enrich_lot_data_steps unwrap_ref_get rename_key_get ref_of_def)

lemma enrich_other:
  "f \<notin> set resolver_fields \<Longrightarrow> dict_get (enrich_lot_data lot) f = dict_get lot f"
  by (simp add: enrich_lot_data_steps unwrap_ref_get rename_key_get resolver_fields_def)

text \<open>One lot through both passes, then the loop over the cache, then the index.\<close>

lemma hydrate_one:
  assumes r1: "resolve_ref v ''auction'' auctions ''_resolved_auction'' = Inr lot1"
      and r2: "resolve_ref lot1 ''lotState'' st ''_resolved_lotState'' = Inr lot2"
  shows "hydrated auctions v (enrich_lot_data lot2)"
proof -
  have g: "\<And>f. f \<noteq> ''_resolved_auction'' \<Longrightarrow> f \<noteq> ''_resolved_lotState'' \<Longrightarrow>
             dict_get lot2 f = dict_get v f"
    using resolve_ref_get [OF r1] resolve_ref_get [OF r2] by simp
  have "dict_get lot2 ''auction'' = dict_get v ''auction''" by (rule g) simp_all
  then have rk: "ref_of lot2 ''auction'' = ref_of v ''auction''" by (rule ref_of_cong)
  have a: "\<And>k. ref_of v ''auction'' = Some k \<Longrightarrow>
             dict_get (enrich_lot_data lot2) ''auction_ref'' = Some k"
    using rk by (simp add: enrich_auction_ref)
  have b: "\<And>k a. ref_of v ''auction'' = Some k \<Longrightarrow> dict_find auctions k = Inr (Some a) \<Longrightarrow>
             dict_get (enrich_lot_data lot2) ''auction_data'' = Some a"
  proof -
    fix k a
    assume "ref_of v ''auction'' = Some k" "dict_find auctions k = Inr (Some a)"
    from resolve_ref_found [OF r1 this] have "dict_get lot1 ''_resolved_auction'' = Some a" .
    moreover have "dict_get lot2 ''_resolved_auction'' = dict_get lot1 ''_resolved_auction''"
      using resolve_ref_get [OF r2] by simp
    ultimately show "dict_get (enrich_lot_data lot2) ''auction_data'' = Some a"
      by (simp add: enrich_auction_data)
  qed
  have c: "\<And>f. f \<notin> set resolver_fields \<Longrightarrow> dict_get (enrich_lot_data lot2) f = dict_get v f"
  proof -
    fix f
    assume n: "f \<notin> set resolver_fields"
    then have "f \<noteq> ''_resolved_auction''" "f \<noteq> ''_resolved_lotState''"
      by (auto simp: resolver_fields_def)
    then have "dict_get lot2 f = dict_get v f" by (rule g)
    with n show "dict_get (enrich_lot_data lot2) f = dict_get v f"
      by (simp add: enrich_other)
  qed
  show ?thesis
    unfolding hydrated_def using a b c by blast
qed

lemma collect_lots_ok:
  assumes "list_all (\<lambda>kv. case snd kv of
                      JObj v \<Rightarrow> ref_hashable v ''auction'' \<and> ref_hashable v ''lotState''
                    | _ \<Rightarrow> True) (filter is_lot items)"
  shows "\<exists>lots. collect_lots auctions st items = Inr lots
           \<and> list_all2 (\<lambda>kv lot. \<exists>v. snd kv = JObj v \<and> hydrated auctions v (enrich_lot_data lot))
                 (filter is_lot items) lots"
  using assms
proof (induction items)
  case Nil
  then show ?case by simp
next
  case (Cons kv items)
  obtain key val where kv: "kv = (key, val)" by (cases kv)
  show ?case
  proof (cases "is_lot kv")
    case False
    with Cons.prems have "list_all (\<lambda>kv. case snd kv of
                      JObj v \<Rightarrow> ref_hashable v ''auction'' \<and> ref_hashable v ''lotState''
                    | _ \<Rightarrow> True) (filter is_lot items)" by simp
    from Cons.IH [OF this] False show ?thesis
      by (cases val) (simp_all add: kv)
  next
    case True
    then obtain v where v: "val = JObj v"
      by (cases val) (simp_all add: kv is_lot_def)
    from Cons.prems True have h: "ref_hashable v ''auction''" "ref_hashable v ''lotState''"
      and rest: "list_all (\<lambda>kv. case snd kv of
                      JObj v \<Rightarrow> ref_hashable v ''auction'' \<and> ref_hashable v ''lotState''
                    | _ \<Rightarrow> True) (filter is_lot items)"
      by (simp_all add: kv v)
    from resolve_ref_total [OF h(1)] obtain lot1 where
      r1: "resolve_ref v ''auction'' auctions ''_resolved_auction'' = Inr lot1" by blast
    have "dict_get lot1 ''lotState'' = dict_get v ''lotState''"
      using resolve_ref_get [OF r1] by simp
    then have "ref_of lot1 ''lotState'' = ref_of v ''lotState''" by (rule ref_of_cong)
    with h(2) have "ref_hashable lot1 ''lotState''" by (simp add: ref_hashable_def)
    from resolve_ref_total [OF this] obtain lot2 where
      r2: "resolve_ref lot1 ''lotState'' st ''_resolved_lotState'' = Inr lot2" by blast
    from Cons.IH [OF rest] obtain lots where
      ih: "collect_lots auctions st items = Inr lots"
          "list_all2 (\<lambda>kv lot. \<exists>v. snd kv = JObj v \<and> hydrated auctions v (enrich_lot_data lot))
                 (filter is_lot items) lots" by blast
    have "collect_lots auctions st (kv # items) = Inr (lot2 # lots)"
      using True r1 r2 ih(1) by (simp add: kv v)
    moreover have "list_all2 (\<lambda>kv lot. \<exists>v. snd kv = JObj v \<and> hydrated auctions v (enrich_lot_data lot))
                 (filter is_lot (kv # items)) (lot2 # lots)"
      using True ih(2) hydrate_one [OF r1 r2] by (simp add: kv v)
    ultimately show ?thesis by blast
  qed
qed

lemma collect_auctions_values:
  "dict_get (collect_auctions r items acc) k = Some a \<Longrightarrow>
   dict_get acc k = Some a \<or> (\<exists>key. (key, a) \<in> set items \<and> is_auction (key, a))"
proof (induction items arbitrary: acc)
  case Nil
  then show ?case by simp
next
  case (Cons kv items)
  obtain key val where kv: "kv = (key, val)" by (cases kv)
  show ?case
  proof (cases "is_auction kv")
    case False
    with Cons.prems have "dict_get (collect_auctions r items acc) k = Some a"
      by (cases val) (simp_all add: kv is_auction_def)
    from Cons.IH [OF this] show ?thesis by auto
  next
    case True
    then obtain v where v: "val = JObj v"
      by (cases val) (simp_all add: kv is_auction_def)
    let ?id = "if startswith key ''Auction:'' then replace ''Auction:'' [] key
               else py_str r (case dict_get v ''id'' of None \<Rightarrow> JNull | Some i \<Rightarrow> i)"
    let ?acc = "dict_set (dict_set acc key val) (''Auction:'' @ ?id) val"
    from Cons.prems True have "dict_get (collect_auctions r items ?acc) k = Some a"
      by (simp add: kv v is_auction_def Let_def)
    from Cons.IH [OF this] show ?thesis
    proof
      assume "dict_get ?acc k = Some a"
      then have "dict_get acc k = Some a \<or> a = val"
        by (auto simp: dict_get_set split: if_splits)
      with True show ?thesis by (auto simp: kv)
    next
      assume "\<exists>key. (key, a) \<in> set items \<and> is_auction (key, a)"
      then show ?thesis by auto
    qed
  qed
qed

text \<open>
  C3, amended. For every cache whose lots have hashable references, the resolver returns a
  list with one entry for each entity it takes for a lot, in the order of the cache. The
  record made of an entry keeps the parent-event reference key as it was, under
  \<^verbatim>\<open>auction_ref\<close>, whether the reference resolves or not; when the key is in the index of
  auctions, the record has the auction found there under \<^verbatim>\<open>auction_data\<close>; the attributes
  the resolver does not handle pass through. Every value of the index is an auction entity
  of the cache.
\<close>

theorem resolver_keeps_lots:
  assumes "refs_hashable cache"
  shows "\<exists>lots. extract_lots_from_apollo r (JObj cache) = Inr lots
           \<and> list_all2 (\<lambda>kv lot. \<exists>v. snd kv = JObj v
                      \<and> hydrated (collect_auctions r cache []) v (enrich_lot_data lot))
                 (filter is_lot cache) lots
           \<and> (\<forall>k a. dict_get (collect_auctions r cache []) k = Some a \<longrightarrow>
                  (\<exists>key. (key, a) \<in> set cache \<and> is_auction (key, a)))"
proof -
  from assms collect_lots_ok [of cache "collect_auctions r cache []" cache]
  obtain lots where l: "collect_lots (collect_auctions r cache []) cache cache = Inr lots"
     "list_all2 (\<lambda>kv lot. \<exists>v. snd kv = JObj v
                      \<and> hydrated (collect_auctions r cache []) v (enrich_lot_data lot))
                 (filter is_lot cache) lots"
    unfolding refs_hashable_def by blast
  have idx: "\<forall>k a. dict_get (collect_auctions r cache []) k = Some a \<longrightarrow>
                  (\<exists>key. (key, a) \<in> set cache \<and> is_auction (key, a))"
    using collect_auctions_values [of r cache "[]"] by (auto simp: dict_get_def)
  from l idx show ?thesis
    by (auto simp: extract_lots_from_apollo_def)
qed

text \<open>The cache of the example: the first lot gets the auction inlined and keeps its
  reference key, the second keeps its reference key alone.\<close>

theorem resolver_keeps_lots_witness:
  "refs_hashable cache_example
   \<and> (\<exists>lots. extract_lots_from_apollo no_repr (JObj cache_example) = Inr lots
          \<and> map enrich_lot_data lots =
              [[(''__typename'', JStr ''Lot''), (''id'', JStr ''100''),
                (''auction_data'', auction_1), (''auction_ref'', JStr ''Auction:1'')],
               [(''__typename'', JStr ''Lot''), (''id'', JStr ''101''),
                (''auction_ref'', JStr ''Auction:9'')]])"
proof -
  have h: "refs_hashable cache_example" by code_simp
  from resolver_keeps_lots [OF h, of no_repr] obtain lots where
    l: "extract_lots_from_apollo no_repr (JObj cache_example) = Inr lots" by blast
  have "map enrich_lot_data (projr (extract_lots_from_apollo no_repr (JObj cache_example))) =
              [[(''__typename'', JStr ''Lot''), (''id'', JStr ''100''),
                (''auction_data'', auction_1), (''auction_ref'', JStr ''Auction:1'')],
               [(''__typename'', JStr ''Lot''), (''id'', JStr ''101''),
                (''auction_ref'', JStr ''Auction:9'')]]"
    by code_simp
  with l h show ?thesis by simp
qed

text \<open>
  A lot whose reference key is a JSON array: the lookup of the key in the index raises
  \<^verbatim>\<open>TypeError\<close>, and the resolver returns no lot at all.
\<close>

theorem unhashable_reference_raises:
  "is_lot (''Lot:1'', JObj [(''auction'', JObj [(''__ref'', JArr [])])])
   \<and> extract_lots_from_apollo no_repr
        (JObj [(''Lot:1'', JObj [(''auction'', JObj [(''__ref'', JArr [])])])]) = Inl TypeError"
  by code_simp

section \<open>One page\<close>

text \<open>The loop that yields, on lots that all have an identifier, as those of \<^verbatim>\<open>new_lots\<close> do:
  the \<^verbatim>\<open>else\<close> branch that counts an error is never taken.\<close>

lemma found_0: "found 0 s = s"
  by (simp add: found_def)

lemma found_Suc: "found k (s\<lparr>stats := (stats s)\<lparr>items_found := items_found (stats s) + 1\<rparr>\<rparr>) = found (Suc k) s"
  by (simp add: found_def)

lemma emit_lots_all:
  "\<forall>l \<in> set lots. id_truthy (get_item_id r l) \<Longrightarrow>
   emit_lots r lim lots total_items s =
     (take (quota lim total_items (length lots)) (map (item_of r) lots),
      total_items + int (quota lim total_items (length lots)),
      found (quota lim total_items (length lots)) s,
      quota lim total_items (length lots) < length lots)"
proof (induction lots arbitrary: total_items s)
  case Nil
  then show ?case by (simp add: quota_def found_0 split: option.splits)
next
  case (Cons lot lots)
  show ?case
  proof (cases "below_limit total_items lim")
    case False
    then show ?thesis
      by (auto simp: below_limit_def quota_def found_0 split: option.splits)
  next
    case True
    have q: "quota lim total_items (Suc (length lots)) = Suc (quota lim (total_items + 1) (length lots))"
      using True by (auto simp: below_limit_def quota_def split: option.splits)
    have t: "id_truthy (get_item_id r lot)" using Cons.prems by simp
    have rest: "\<forall>l \<in> set lots. id_truthy (get_item_id r l)" using Cons.prems by simp
    show ?thesis
      using True t Cons.IH [OF rest, of "total_items + 1"]
      by (simp add: q Let_def item_of_def found_Suc)
  qed
qed

text \<open>The loop that filters: what it keeps is new, pairwise distinct, and each kept lot is the
  first of the page with its identifier.\<close>

lemma filter_new_props:
  "filter_new r lots seen = (new, seen') \<Longrightarrow>
   seen' = seen \<union> set (map (\<lambda>l. the (get_item_id r l)) new)
   \<and> distinct (map (\<lambda>l. the (get_item_id r l)) new)
   \<and> set (map (\<lambda>l. the (get_item_id r l)) new) \<inter> seen = {}
   \<and> (\<forall>l \<in> set new. id_truthy (get_item_id r l))"
proof (induction lots arbitrary: seen new seen')
  case Nil
  then show ?case by simp
next
  case (Cons lot lots)
  show ?case
  proof (cases "id_truthy (get_item_id r lot) \<and> the (get_item_id r lot) \<notin> seen")
    case True
    obtain new1 seen1 where f: "filter_new r lots (insert (the (get_item_id r lot)) seen) = (new1, seen1)"
      by (cases "filter_new r lots (insert (the (get_item_id r lot)) seen)") auto
    from Cons.prems True f have eq: "new = lot # new1" "seen' = seen1"
      by (auto simp: Let_def)
    from Cons.IH [OF f] True show ?thesis
      unfolding eq by auto
  next
    case False
    with Cons.prems have "filter_new r lots seen = (new, seen')"
      by (auto simp: Let_def)
    from Cons.IH [OF this] show ?thesis .
  qed
qed

lemma id_truthy_eq: "id_truthy a \<Longrightarrow> id_truthy b \<Longrightarrow> the a = the b \<Longrightarrow> a = b"
  by (auto simp: id_truthy_def split: option.splits)

lemma filter_new_first:
  "filter_new r lots seen = (new, seen') \<Longrightarrow> l \<in> set new \<Longrightarrow>
   List.find (\<lambda>l'. get_item_id r l' = get_item_id r l) lots = Some l"
proof (induction lots arbitrary: seen new seen')
  case Nil
  then show ?case by simp
next
  case (Cons lot lots)
  show ?case
  proof (cases "id_truthy (get_item_id r lot) \<and> the (get_item_id r lot) \<notin> seen")
    case True
    obtain new1 seen1 where f: "filter_new r lots (insert (the (get_item_id r lot)) seen) = (new1, seen1)"
      by (cases "filter_new r lots (insert (the (get_item_id r lot)) seen)") auto
    from Cons.prems(1) True f have eq: "new = lot # new1"
      by (auto simp: Let_def)
    show ?thesis
    proof (cases "l = lot")
      case True
      then show ?thesis by simp
    next
      case False
      with Cons.prems(2) eq have in1: "l \<in> set new1" by simp
      have "the (get_item_id r l) \<in> set (map (\<lambda>l. the (get_item_id r l)) new1)"
        using in1 by simp
      moreover have "the (get_item_id r lot) \<notin> set (map (\<lambda>l. the (get_item_id r l)) new1)"
        using filter_new_props [OF f] by blast
      ultimately have "the (get_item_id r l) \<noteq> the (get_item_id r lot)" by metis
      then have "get_item_id r lot \<noteq> get_item_id r l" by auto
      with Cons.IH [OF f in1] show ?thesis by simp
    qed
  next
    case False
    with Cons.prems(1) have f: "filter_new r lots seen = (new, seen')"
      by (auto simp: Let_def)
    from filter_new_props [OF f] Cons.prems(2)
    have "id_truthy (get_item_id r l)" "the (get_item_id r l) \<notin> seen" by auto
    with False have "get_item_id r lot \<noteq> get_item_id r l" by auto
    with Cons.IH [OF f Cons.prems(2)] show ?thesis by simp
  qed
qed


text \<open>The filter, lot by lot from the left as the source runs it, and what it returns: the
  new lots by position, and the identifiers seen before together with those of the page.\<close>

lemma filter_new_snoc:
  "filter_new r (xs @ [x]) seen =
     (case filter_new r xs seen of
        (new, seen') \<Rightarrow>
          if id_truthy (get_item_id r x) \<and> the (get_item_id r x) \<notin> seen'
          then (new @ [x], insert (the (get_item_id r x)) seen')
          else (new, seen'))"
  by (induction xs arbitrary: seen) (simp_all add: Let_def split: prod.splits)

lemma page_ids_snoc:
  "page_ids r (xs @ [x]) =
     (if id_truthy (get_item_id r x) then insert (the (get_item_id r x)) (page_ids r xs)
      else page_ids r xs)"
  by (simp add: page_ids_def)

lemma not_in_page_ids:
  assumes "id_truthy (get_item_id r x)"
  shows "the (get_item_id r x) \<notin> page_ids r xs
         \<longleftrightarrow> list_all (\<lambda>l. get_item_id r l \<noteq> get_item_id r x) xs"
proof
  assume n: "the (get_item_id r x) \<notin> page_ids r xs"
  show "list_all (\<lambda>l. get_item_id r l \<noteq> get_item_id r x) xs"
    unfolding list_all_iff
  proof
    fix l assume l: "l \<in> set xs"
    show "get_item_id r l \<noteq> get_item_id r x"
    proof
      assume e: "get_item_id r l = get_item_id r x"
      from e assms have "id_truthy (get_item_id r l)" by simp
      with l have "the (get_item_id r l) \<in> page_ids r xs"
        by (simp add: page_ids_def image_iff) blast
      with e n show False by simp
    qed
  qed
next
  assume a: "list_all (\<lambda>l. get_item_id r l \<noteq> get_item_id r x) xs"
  show "the (get_item_id r x) \<notin> page_ids r xs"
  proof
    assume "the (get_item_id r x) \<in> page_ids r xs"
    then obtain l where l: "l \<in> set xs" "id_truthy (get_item_id r l)"
        "the (get_item_id r l) = the (get_item_id r x)"
      by (auto simp: page_ids_def)
    from id_truthy_eq [OF l(2) assms l(3)] a l(1) show False
      by (simp add: list_all_iff)
  qed
qed

lemma new_at_snoc_old:
  "i < length xs \<Longrightarrow> new_at r seen (xs @ [x]) i = new_at r seen xs i"
  by (simp add: new_at_def nth_append)

lemma new_at_snoc_last:
  "new_at r seen (xs @ [x]) (length xs) \<longleftrightarrow>
     id_truthy (get_item_id r x) \<and> the (get_item_id r x) \<notin> seen
     \<and> list_all (\<lambda>l. get_item_id r l \<noteq> get_item_id r x) xs"
  by (simp add: new_at_def)

lemma new_lots_of_snoc:
  "new_lots_of r seen (xs @ [x]) =
     new_lots_of r seen xs @ (if new_at r seen (xs @ [x]) (length xs) then [x] else [])"
proof -
  have f: "filter (new_at r seen (xs @ [x])) [0 ..< length xs] = filter (new_at r seen xs) [0 ..< length xs]"
    by (rule filter_cong) (simp_all add: new_at_snoc_old)
  have m: "map (\<lambda>i. (xs @ [x]) ! i) (filter (new_at r seen xs) [0 ..< length xs])
           = map (\<lambda>i. xs ! i) (filter (new_at r seen xs) [0 ..< length xs])"
    by (rule map_cong) (auto simp: nth_append)
  show ?thesis
    by (simp add: new_lots_of_def f m)
qed

lemma filter_new_exact:
  "filter_new r lots seen = (new_lots_of r seen lots, seen \<union> page_ids r lots)"
proof (induction lots rule: rev_induct)
  case Nil
  show ?case by (simp add: new_lots_of_def page_ids_def)
next
  case (snoc x xs)
  show ?case
  proof (cases "id_truthy (get_item_id r x)")
    case False
    then show ?thesis
      by (simp add: filter_new_snoc snoc.IH new_lots_of_snoc new_at_snoc_last page_ids_snoc)
  next
    case True
    note n = not_in_page_ids [OF True, of xs]
    show ?thesis
      using True n
      by (auto simp: filter_new_snoc snoc.IH new_lots_of_snoc new_at_snoc_last page_ids_snoc)
  qed
qed
text \<open>A fetch that returns a page and an extraction that returns a cache count no error.\<close>

lemma extract_apollo_state_Some:
  "extract_apollo_state h s1 = (Some apollo_state, s2) \<Longrightarrow> s2 = s1"
  by (auto simp: extract_apollo_state_def
           split: html.splits state_script.splits json.splits option.splits)

lemma fetch_attempts_Some:
  "fetch_attempts nt url retries attempts s = (Some h, s1) \<Longrightarrow> stats s1 = stats s"
proof (induction attempts arbitrary: s)
  case Nil
  then show ?case by simp
next
  case (Cons attempt rest)
  show ?case
  proof (cases "nt (requests s) url")
    case RequestException
    with Cons.prems have
      "fetch_attempts nt url retries rest
         (log_event (Sleep ((int attempt + 1) * 5))
            (log_event (Get url) (s\<lparr>requests := requests s + 1\<rparr>))) = (Some h, s1)"
      by (auto simp: Let_def split: if_splits)
    from Cons.IH [OF this] show ?thesis by (simp add: log_event_def)
  next
    case (Text x)
    with Cons.prems show ?thesis by (auto simp: Let_def log_event_def)
  qed
qed

lemma fetch_page_Some: "fetch_page nt url retries s = (Some h, s1) \<Longrightarrow> stats s1 = stats s"
  unfolding fetch_page_def by (rule fetch_attempts_Some)

text \<open>The turn of the loop on a page that is fetched, extracted and resolved.\<close>

lemma quota_Nil: "quota lim t 0 = 0"
  by (simp add: quota_def split: option.splits)

lemma scrape_page_lots:
  assumes "fetch_page nt (build_url cfg category page) 3 s = (Some h, s1)" and "h \<noteq> Empty"
    and "extract_apollo_state h s1 = (Some apollo_state, s2)" and "truthy apollo_state"
    and "extract_lots_from_apollo r apollo_state = Inr lots"
    and "filter_new r lots seen = (new, seen')"
  shows "scrape_page r nt cfg category page total_items seen s =
     (take (quota (limit_of cfg) total_items (length new)) (map (item_of r) new),
      total_items + int (quota (limit_of cfg) total_items (length new)),
      seen',
      found (quota (limit_of cfg) total_items (length new)) (page_counted s2),
      if new = [] \<or> quota (limit_of cfg) total_items (length new) < length new
         \<or> int (length lots) < ITEMS_PER_PAGE div 2
      then Finished else Continue)"
proof (cases "new = []")
  case True
  then show ?thesis
    using assms by (simp add: scrape_page_def Let_def quota_Nil found_0 page_counted_def)
next
  case False
  have t: "\<forall>l \<in> set new. id_truthy (get_item_id r l)"
    using filter_new_props [OF assms(6)] by blast
  show ?thesis
    using assms False
    by (simp add: scrape_page_def Let_def emit_lots_all [OF t] page_counted_def)
qed

lemma scrape_page_cases:
  "scrape_page r nt cfg category page total_items seen s = (out, total', seen', s', c) \<Longrightarrow>
   (out = [] \<and> seen' = seen) \<or>
   (\<exists>h s1 apollo_state s2 lots.
      fetch_page nt (build_url cfg category page) 3 s = (Some h, s1) \<and> h \<noteq> Empty
      \<and> extract_apollo_state h s1 = (Some apollo_state, s2) \<and> truthy apollo_state
      \<and> extract_lots_from_apollo r apollo_state = Inr lots)"
  by (auto simp: scrape_page_def Let_def split: prod.splits option.splits if_splits sum.splits)

lemma scrape_page_ids:
  assumes "scrape_page r nt cfg category page total_items seen s = (out, total', seen', s', c)"
  shows "distinct (map fst out) \<and> set (map fst out) \<inter> seen = {}
         \<and> set (map fst out) \<subseteq> seen' \<and> seen \<subseteq> seen'"
proof -
  from scrape_page_cases [OF assms] show ?thesis
  proof
    assume "out = [] \<and> seen' = seen"
    then show ?thesis by simp
  next
    assume "\<exists>h s1 apollo_state s2 lots.
      fetch_page nt (build_url cfg category page) 3 s = (Some h, s1) \<and> h \<noteq> Empty
      \<and> extract_apollo_state h s1 = (Some apollo_state, s2) \<and> truthy apollo_state
      \<and> extract_lots_from_apollo r apollo_state = Inr lots"
    then obtain h s1 apollo_state s2 lots where
      a: "fetch_page nt (build_url cfg category page) 3 s = (Some h, s1)" "h \<noteq> Empty"
         "extract_apollo_state h s1 = (Some apollo_state, s2)" "truthy apollo_state"
         "extract_lots_from_apollo r apollo_state = Inr lots"
      by blast
    obtain new seen1 where f: "filter_new r lots seen = (new, seen1)"
      by (cases "filter_new r lots seen") auto
    let ?k = "quota (limit_of cfg) total_items (length new)"
    from scrape_page_lots [OF a f, of total_items] assms
    have out: "out = take ?k (map (item_of r) new)" and s: "seen' = seen1" by simp_all
    have ids: "map fst out = take ?k (map (\<lambda>l. the (get_item_id r l)) new)"
      by (simp add: out item_of_def take_map comp_def)
    from filter_new_props [OF f] have
      p: "seen1 = seen \<union> set (map (\<lambda>l. the (get_item_id r l)) new)"
         "distinct (map (\<lambda>l. the (get_item_id r l)) new)"
         "set (map (\<lambda>l. the (get_item_id r l)) new) \<inter> seen = {}"
      by blast+
    have sub: "set (map fst out) \<subseteq> set (map (\<lambda>l. the (get_item_id r l)) new)"
      unfolding ids by (rule set_take_subset)
    have d: "distinct (map fst out)"
      unfolding ids using p(2) by (rule distinct_take)
    from sub d p s show ?thesis by blast
  qed
qed

section \<open>The loop over the pages\<close>

lemma scrape_loop_ids:
  "scrape_loop fuel r nt cfg category page total_items seen s = Some (out, s', e) \<Longrightarrow>
   distinct (map fst out) \<and> set (map fst out) \<inter> seen = {}"
proof (induction fuel arbitrary: page total_items seen s out s' e)
  case 0
  then show ?case
    by (simp add: scrape_loop.simps split: if_splits)
next
  case (Suc fuel)
  show ?case
  proof (cases "below_limit total_items (limit_of cfg)")
    case False
    with Suc.prems show ?thesis by (simp add: scrape_loop.simps)
  next
    case True
    obtain out1 total1 seen1 s1 c where
      pg: "scrape_page r nt cfg category page total_items seen s = (out1, total1, seen1, s1, c)"
      by (cases "scrape_page r nt cfg category page total_items seen s") auto
    note ids = scrape_page_ids [OF pg]
    show ?thesis
    proof (cases c)
      case Continue
      with Suc.prems True pg obtain out2 where
        rest: "scrape_loop fuel r nt cfg category (page + 1) total1 seen1 (delay cfg s1) = Some (out2, s', e)"
        and out: "out = out1 @ out2"
        by (auto simp: scrape_loop.simps [of "Suc fuel"] split: option.splits)
      from Suc.IH [OF rest] ids show ?thesis
        unfolding out by auto
    next
      case Finished
      with Suc.prems True pg have "out = out1"
        by (simp add: scrape_loop.simps [of "Suc fuel"])
      with ids show ?thesis by simp
    next
      case (Raised x)
      with Suc.prems True pg have "out = out1"
        by (simp add: scrape_loop.simps [of "Suc fuel"])
      with ids show ?thesis by simp
    qed
  qed
qed


text \<open>What a run yields from a page on: the new lots of the page that the limit lets
  through, then lots whose identifiers are neither seen before nor on the page.\<close>

lemma scrape_loop_after_page:
  assumes "below_limit total_items (limit_of cfg)"
    and "fetch_page nt (build_url cfg category page) 3 s = (Some h, s1)" and "h \<noteq> Empty"
    and "extract_apollo_state h s1 = (Some apollo_state, s2)" and "truthy apollo_state"
    and "extract_lots_from_apollo r apollo_state = Inr lots"
    and "scrape_loop (Suc fuel) r nt cfg category page total_items seen_ids s = Some (out, s', e)"
  shows "\<exists>rest. out = take (quota (limit_of cfg) total_items (length (new_lots_of r seen_ids lots)))
                        (map (item_of r) (new_lots_of r seen_ids lots)) @ rest
              \<and> set (map fst rest) \<inter> (seen_ids \<union> page_ids r lots) = {}"
proof -
  let ?new = "new_lots_of r seen_ids lots"
  let ?k = "quota (limit_of cfg) total_items (length ?new)"
  let ?c = "if ?new = [] \<or> ?k < length ?new \<or> int (length lots) < ITEMS_PER_PAGE div 2
            then Finished else Continue"
  have pg: "scrape_page r nt cfg category page total_items seen_ids s =
      (take ?k (map (item_of r) ?new), total_items + int ?k, seen_ids \<union> page_ids r lots,
       found ?k (page_counted s2), ?c)"
    by (rule scrape_page_lots [OF assms(2-6) filter_new_exact])
  show ?thesis
  proof (cases "?c = Continue")
    case True
    with assms(1,7) pg obtain out2 where
      rest: "scrape_loop fuel r nt cfg category (page + 1) (total_items + int ?k)
               (seen_ids \<union> page_ids r lots) (delay cfg (found ?k (page_counted s2))) = Some (out2, s', e)"
      and out: "out = take ?k (map (item_of r) ?new) @ out2"
      by (auto simp: scrape_loop.simps [of "Suc fuel"] split: option.splits)
    from scrape_loop_ids [OF rest] out show ?thesis by blast
  next
    case False
    then have "?c = Finished" by (simp split: if_splits)
    with assms(1,7) pg have "out = take ?k (map (item_of r) ?new) @ []"
      by (simp add: scrape_loop.simps [of "Suc fuel"])
    then show ?thesis by (intro exI [of _ "[]"]) simp
  qed
qed
text \<open>
  C6. A turn of the loop, at any page and in any state: when the page is fetched, its cache
  extracted, and none of its lots is new (each has no identifier or one seen before), the
  generator ends there with nothing yielded. The state it leaves is the state right after
  the fetch of this page, with the page counted: no GET and no delay follows.
\<close>

theorem no_new_lots_stops_category:
  assumes "below_limit total_items (limit_of cfg)"
    and "fetch_page nt (build_url cfg category page) 3 s = (Some h, s1)" and "h \<noteq> Empty"
    and "extract_apollo_state h s1 = (Some apollo_state, s2)" and "truthy apollo_state"
    and "extract_lots_from_apollo r apollo_state = Inr lots"
    and "fst (filter_new r lots seen_ids) = []"
  shows "scrape_loop (Suc fuel) r nt cfg category page total_items seen_ids s =
           Some ([], page_counted s1, None)
     \<and> trace (page_counted s1) = trace s1 \<and> requests (page_counted s1) = requests s1"
proof -
  obtain seen' where f: "filter_new r lots seen_ids = ([], seen')"
    using assms(7) by (cases "filter_new r lots seen_ids") auto
  have s2: "s2 = s1" using assms(4) by (rule extract_apollo_state_Some)
  have "scrape_loop (Suc fuel) r nt cfg category page total_items seen_ids s =
           Some ([], page_counted s1, None)"
    using assms(1) scrape_page_lots [OF assms(2-6) f, of total_items]
    by (simp add: scrape_loop.simps [of "Suc fuel"] quota_Nil found_0 s2)
  then show ?thesis by (simp add: page_counted_def)
qed

text \<open>The second page of a site that shows the lot 1 again: nothing is yielded, and the
  only event is the GET of page 2.\<close>

theorem no_new_lots_stops_category_witness:
  "fst (filter_new no_repr [lot_1] {''1''}) = []
   \<and> map_option (\<lambda>(out, s, e). (out, trace s, pages_scraped (stats s), e))
        (scrape_loop (Suc 0) no_repr net_one_lot (example_config [] False 20) None 2 1 {''1''}
           new_scraper)
      = Some ([], [Get ''https://hibid.com/lots/?status=open&zip=78414&miles=50&apage=2&ipp=100''],
              1, None)"
proof -
  let ?cfg = "example_config [] False 20"
  let ?s1 = "snd (fetch_page net_one_lot (build_url ?cfg None 2) 3 new_scraper)"
  let ?h = "Doc (Parsed (JObj [(''apollo.state'', JObj [lot_entry ''1''])]))"
  have h1: "below_limit 1 (limit_of ?cfg)" by code_simp
  have h2: "fetch_page net_one_lot (build_url ?cfg None 2) 3 new_scraper = (Some ?h, ?s1)"
    by code_simp
  have h3: "?h \<noteq> Empty" by simp
  have h4: "extract_apollo_state ?h ?s1 = (Some (JObj [lot_entry ''1'']), ?s1)" by code_simp
  have h5: "truthy (JObj [lot_entry ''1''])" by simp
  have h6: "extract_lots_from_apollo no_repr (JObj [lot_entry ''1'']) = Inr [lot_1]" by code_simp
  have h7: "fst (filter_new no_repr [lot_1] {''1''}) = []" by code_simp
  have tr: "trace (page_counted ?s1) =
      [Get ''https://hibid.com/lots/?status=open&zip=78414&miles=50&apage=2&ipp=100'']"
    by code_simp
  have pg: "pages_scraped (stats (page_counted ?s1)) = 1" by code_simp
  from no_new_lots_stops_category [OF h1 h2 h3 h4 h5 h6 h7, of 0] h7 tr pg
  show ?thesis by simp
qed

text \<open>
  C5, amended. A turn of the loop on a page with fewer than \<^verbatim>\<open>ITEMS_PER_PAGE // 2\<close> = 50
  lots in its cache, however many of them are duplicates: the generator ends at this page,
  and the state it leaves has the trace of the state right after the fetch of this page, so
  no GET and no delay follows. Outside test mode it has yielded all the new lots of the page;
  in test mode it has yielded the first of them, as many as the test limit still allows.
\<close>

theorem partial_page_stops_category:
  assumes "below_limit total_items (limit_of cfg)"
    and "fetch_page nt (build_url cfg category page) 3 s = (Some h, s1)" and "h \<noteq> Empty"
    and "extract_apollo_state h s1 = (Some apollo_state, s2)" and "truthy apollo_state"
    and "extract_lots_from_apollo r apollo_state = Inr lots"
    and "int (length lots) < ITEMS_PER_PAGE div 2"
  shows "ITEMS_PER_PAGE div 2 = 50
     \<and> scrape_loop (Suc fuel) r nt cfg category page total_items seen_ids s =
           Some (take (quota (limit_of cfg) total_items (length (new_lots_of r seen_ids lots)))
                   (map (item_of r) (new_lots_of r seen_ids lots)),
                 found (quota (limit_of cfg) total_items (length (new_lots_of r seen_ids lots)))
                   (page_counted s1),
                 None)
     \<and> trace (found (quota (limit_of cfg) total_items (length (new_lots_of r seen_ids lots)))
                (page_counted s1)) = trace s1
     \<and> (\<not> test_mode cfg \<longrightarrow>
          quota (limit_of cfg) total_items (length (new_lots_of r seen_ids lots))
            = length (new_lots_of r seen_ids lots))
     \<and> (test_mode cfg \<longrightarrow>
          quota (limit_of cfg) total_items (length (new_lots_of r seen_ids lots))
            = min (length (new_lots_of r seen_ids lots)) (nat (test_limit cfg - total_items)))"
proof -
  let ?new = "new_lots_of r seen_ids lots"
  let ?k = "quota (limit_of cfg) total_items (length ?new)"
  have s2: "s2 = s1" using assms(4) by (rule extract_apollo_state_Some)
  have loop: "scrape_loop (Suc fuel) r nt cfg category page total_items seen_ids s =
           Some (take ?k (map (item_of r) ?new), found ?k (page_counted s1), None)"
    using assms(1,7) scrape_page_lots [OF assms(2-6) filter_new_exact, of total_items seen_ids]
    by (simp add: scrape_loop.simps [of "Suc fuel"] s2)
  have q: "\<not> test_mode cfg \<longrightarrow> ?k = length ?new"
    by (simp add: quota_def limit_of_def)
  have q': "test_mode cfg \<longrightarrow> ?k = min (length ?new) (nat (test_limit cfg - total_items))"
    by (simp add: quota_def limit_of_def)
  have c: "ITEMS_PER_PAGE div 2 = 50" by (simp add: ITEMS_PER_PAGE_def)
  have t: "trace (found ?k (page_counted s1)) = trace s1"
    by (simp add: found_def page_counted_def)
  from c loop t q q' show ?thesis by blast
qed
text \<open>A first page with three lots in test mode with limit 2: the first two lots are yielded
  and the only event is the GET of page 1.\<close>

theorem partial_page_stops_category_witness:
  "int (length [lot_n ''1'', lot_n ''2'', lot_n ''3'']) < ITEMS_PER_PAGE div 2
   \<and> map_option (\<lambda>(out, s, e). (out, trace s, e))
        (scrape_loop (Suc 0) no_repr net_three_lots (example_config [] True 2) None 1 0 {}
           new_scraper)
      = Some ([(''1'', lot_n ''1''), (''2'', lot_n ''2'')],
              [Get ''https://hibid.com/lots/?status=open&zip=78414&miles=50&apage=1&ipp=100''],
              None)"
proof -
  let ?cfg = "example_config [] True 2"
  let ?s1 = "snd (fetch_page net_three_lots (build_url ?cfg None 1) 3 new_scraper)"
  let ?cache = "JObj [lot_entry ''1'', lot_entry ''2'', lot_entry ''3'']"
  let ?h = "Doc (Parsed (JObj [(''apollo.state'', ?cache)]))"
  let ?lots = "[lot_n ''1'', lot_n ''2'', lot_n ''3'']"
  have h1: "below_limit 0 (limit_of ?cfg)" by code_simp
  have h2: "fetch_page net_three_lots (build_url ?cfg None 1) 3 new_scraper = (Some ?h, ?s1)"
    by code_simp
  have h3: "?h \<noteq> Empty" by simp
  have h4: "extract_apollo_state ?h ?s1 = (Some ?cache, ?s1)" by code_simp
  have h5: "truthy ?cache" by simp
  have h6: "extract_lots_from_apollo no_repr ?cache = Inr ?lots" by code_simp
  have h7: "int (length ?lots) < ITEMS_PER_PAGE div 2" by code_simp
  have ev: "take (quota (limit_of ?cfg) 0 (length (new_lots_of no_repr {} ?lots)))
              (map (item_of no_repr) (new_lots_of no_repr {} ?lots))
            = [(''1'', lot_n ''1''), (''2'', lot_n ''2'')]" by code_simp
  have tr: "trace ?s1 =
      [Get ''https://hibid.com/lots/?status=open&zip=78414&miles=50&apage=1&ipp=100'']"
    by code_simp
  from partial_page_stops_category [OF h1 h2 h3 h4 h5 h6 h7, of 0 "{}"] h7 ev tr
  show ?thesis by simp
qed

text \<open>
  In test mode with limit 1, a page with three new lots (fewer than 50) yields the first of
  them only: the loop that yields returns at the limit, before the other two.
\<close>

theorem test_limit_cuts_partial_page:
  "map_option (\<lambda>(out, s, e). (map fst out, e))
     (scrape_category 1 no_repr net_three_lots (example_config [] True 1) None new_scraper)
     = Some ([''1''], None)
   \<and> map (\<lambda>l. the (get_item_id no_repr l))
        (new_lots_of no_repr {}
           [[(''__typename'', JStr ''Lot''), (''id'', JStr ''1'')],
            [(''__typename'', JStr ''Lot''), (''id'', JStr ''2'')],
            [(''__typename'', JStr ''Lot''), (''id'', JStr ''3'')]])
     = [''1'', ''2'', ''3'']
   \<and> extract_lots_from_apollo no_repr
        (JObj [lot_entry ''1'', lot_entry ''2'', lot_entry ''3''])
     = Inr [[(''__typename'', JStr ''Lot''), (''id'', JStr ''1'')],
            [(''__typename'', JStr ''Lot''), (''id'', JStr ''2'')],
            [(''__typename'', JStr ''Lot''), (''id'', JStr ''3'')]]"
  by code_simp
text \<open>
  C7. The identifiers a category yields are pairwise distinct. On a page that was fetched
  and whose cache was extracted, what is yielded is the new lots of the page (as many as the
  limit allows): each yielded pair has an identifier not seen before the page and is the
  enriched first lot of the page with that identifier. After the page the seen identifiers
  are those seen before and all those of the page's lots, and the error counter is the one
  before the page, whatever duplicates the page holds. From a page on, a run yields the new
  lots of the page and then only lots whose identifiers were neither seen before the page
  nor are on it.
\<close>

theorem duplicates_filtered:
  "(scrape_category fuel r nt cfg category s0 = Some (items, s9, e) \<longrightarrow> distinct (map fst items))
   \<and> (fetch_page nt (build_url cfg category page) 3 s = (Some h, s1) \<and> h \<noteq> Empty
        \<and> extract_apollo_state h s1 = (Some apollo_state, s2) \<and> truthy apollo_state
        \<and> extract_lots_from_apollo r apollo_state = Inr lots
        \<and> scrape_page r nt cfg category page total_items seen_ids s
            = (out, total_after, seen_after, s_after, c)
      \<longrightarrow> (\<forall>(i, item) \<in> set out.
             i \<notin> seen_ids
             \<and> (\<exists>l. List.find (\<lambda>l'. get_item_id r l' = Some i) lots = Some l
                      \<and> item = enrich_lot_data l))
          \<and> errors (stats s_after) = errors (stats s)
          \<and> seen_after = seen_ids \<union> page_ids r lots
          \<and> out = take (quota (limit_of cfg) total_items (length (new_lots_of r seen_ids lots)))
                    (map (item_of r) (new_lots_of r seen_ids lots)))
   \<and> (below_limit total_items (limit_of cfg)
        \<and> fetch_page nt (build_url cfg category page) 3 s = (Some h, s1) \<and> h \<noteq> Empty
        \<and> extract_apollo_state h s1 = (Some apollo_state, s2) \<and> truthy apollo_state
        \<and> extract_lots_from_apollo r apollo_state = Inr lots
        \<and> scrape_loop (Suc turns) r nt cfg category page total_items seen_ids s
            = Some (yielded, s8, e8)
      \<longrightarrow> (\<exists>later.
             yielded = take (quota (limit_of cfg) total_items (length (new_lots_of r seen_ids lots)))
                         (map (item_of r) (new_lots_of r seen_ids lots)) @ later
             \<and> set (map fst later) \<inter> (seen_ids \<union> page_ids r lots) = {}))"
proof (intro conjI impI)
  assume "scrape_category fuel r nt cfg category s0 = Some (items, s9, e)"
  then show "distinct (map fst items)"
    unfolding scrape_category_def using scrape_loop_ids by blast
next
  assume a: "below_limit total_items (limit_of cfg)
        \<and> fetch_page nt (build_url cfg category page) 3 s = (Some h, s1) \<and> h \<noteq> Empty
        \<and> extract_apollo_state h s1 = (Some apollo_state, s2) \<and> truthy apollo_state
        \<and> extract_lots_from_apollo r apollo_state = Inr lots
        \<and> scrape_loop (Suc turns) r nt cfg category page total_items seen_ids s
            = Some (yielded, s8, e8)"
  then have pre: "below_limit total_items (limit_of cfg)"
    "fetch_page nt (build_url cfg category page) 3 s = (Some h, s1)" "h \<noteq> Empty"
    "extract_apollo_state h s1 = (Some apollo_state, s2)" "truthy apollo_state"
    "extract_lots_from_apollo r apollo_state = Inr lots"
    "scrape_loop (Suc turns) r nt cfg category page total_items seen_ids s = Some (yielded, s8, e8)"
    by blast+
  show "\<exists>later.
             yielded = take (quota (limit_of cfg) total_items (length (new_lots_of r seen_ids lots)))
                         (map (item_of r) (new_lots_of r seen_ids lots)) @ later
             \<and> set (map fst later) \<inter> (seen_ids \<union> page_ids r lots) = {}"
    by (rule scrape_loop_after_page [OF pre])
next
  assume a: "fetch_page nt (build_url cfg category page) 3 s = (Some h, s1) \<and> h \<noteq> Empty
        \<and> extract_apollo_state h s1 = (Some apollo_state, s2) \<and> truthy apollo_state
        \<and> extract_lots_from_apollo r apollo_state = Inr lots
        \<and> scrape_page r nt cfg category page total_items seen_ids s
            = (out, total_after, seen_after, s_after, c)"
  let ?new = "new_lots_of r seen_ids lots"
  let ?k = "quota (limit_of cfg) total_items (length ?new)"
  have f: "filter_new r lots seen_ids = (?new, seen_ids \<union> page_ids r lots)"
    by (rule filter_new_exact)
  from a have pre:
    "fetch_page nt (build_url cfg category page) 3 s = (Some h, s1)" "h \<noteq> Empty"
    "extract_apollo_state h s1 = (Some apollo_state, s2)" "truthy apollo_state"
    "extract_lots_from_apollo r apollo_state = Inr lots"
    by blast+
  from a scrape_page_lots [OF pre f, of total_items]
  have out: "out = take ?k (map (item_of r) ?new)" and st: "s_after = found ?k (page_counted s2)"
    and sn: "seen_after = seen_ids \<union> page_ids r lots"
    by simp_all
  have s2: "s2 = s1" using pre(3) by (rule extract_apollo_state_Some)
  have "stats s1 = stats s" using pre(1) by (rule fetch_page_Some)
  then have er: "errors (stats s_after) = errors (stats s)"
    by (simp add: st s2 found_def page_counted_def)
  have firsts: "\<forall>(i, item) \<in> set out.
             i \<notin> seen_ids
             \<and> (\<exists>l. List.find (\<lambda>l'. get_item_id r l' = Some i) lots = Some l
                      \<and> item = enrich_lot_data l)"
  proof (clarify)
    fix i item
    assume "(i, item) \<in> set out"
    then have "(i, item) \<in> set (map (item_of r) ?new)"
      unfolding out by (rule in_set_takeD)
    then obtain l where l: "l \<in> set ?new" "i = the (get_item_id r l)" "item = enrich_lot_data l"
      by (auto simp: item_of_def)
    from filter_new_props [OF f] l(1) have t: "id_truthy (get_item_id r l)" by blast
    then have g: "get_item_id r l = Some i"
      using l(2) by (auto simp: id_truthy_def split: option.splits)
    have "i \<in> set (map (\<lambda>l. the (get_item_id r l)) ?new)" using l by auto
    with filter_new_props [OF f] have n: "i \<notin> seen_ids" by blast
    from filter_new_first [OF f l(1)] g l(3) n
    show "i \<notin> seen_ids \<and> (\<exists>l. List.find (\<lambda>l'. get_item_id r l' = Some i) lots = Some l
                      \<and> item = enrich_lot_data l)"
      by auto
  qed
  show "\<forall>(i, item) \<in> set out.
             i \<notin> seen_ids
             \<and> (\<exists>l. List.find (\<lambda>l'. get_item_id r l' = Some i) lots = Some l
                      \<and> item = enrich_lot_data l)"
    by (rule firsts)
  show "errors (stats s_after) = errors (stats s)" by (rule er)
  show "seen_after = seen_ids \<union> page_ids r lots" by (rule sn)
  show "out = take ?k (map (item_of r) ?new)" by (rule out)
qed
text \<open>A page with two lots of identifier 1: the first is yielded, the second is not, and no
  error is counted.\<close>

theorem duplicates_filtered_witness:
  "map_option (\<lambda>(out, s, e). (out, errors (stats s), e))
     (scrape_category 1 no_repr net_duplicate (example_config [] False 20) None new_scraper)
     = Some ([(''1'', lot_1)], 0, None)
   \<and> distinct [''1'']
   \<and> List.find (\<lambda>l'. get_item_id no_repr l' = Some ''1'') [lot_1, lot_1 @ [(''lead'', JStr ''again'')]]
       = Some lot_1
   \<and> page_ids no_repr [lot_1, lot_1 @ [(''lead'', JStr ''again'')]] = {''1''}
   \<and> new_lots_of no_repr {} [lot_1, lot_1 @ [(''lead'', JStr ''again'')]] = [lot_1]"
proof -
  let ?cfg = "example_config [] False 20"
  let ?s1 = "snd (fetch_page net_duplicate (build_url ?cfg None 1) 3 new_scraper)"
  let ?h = "Doc (Parsed (JObj [(''apollo.state'', JObj [lot_entry ''1'', second_lot_1])]))"
  let ?lots = "[lot_1, lot_1 @ [(''lead'', JStr ''again'')]]"
  let ?s9 = "fst (snd (snd (snd (scrape_page no_repr net_duplicate ?cfg None 1 0 {} new_scraper))))"
  have run: "scrape_category 1 no_repr net_duplicate ?cfg None new_scraper =
      Some ([(''1'', lot_1)], ?s9, None)" by code_simp
  have lp: "scrape_loop (Suc 0) no_repr net_duplicate ?cfg None 1 0 {} new_scraper =
      Some ([(''1'', lot_1)], ?s9, None)" by code_simp
  have h1: "below_limit 0 (limit_of ?cfg)" by code_simp
  have h2: "fetch_page net_duplicate (build_url ?cfg None 1) 3 new_scraper = (Some ?h, ?s1)"
    by code_simp
  have h3: "?h \<noteq> Empty" by simp
  have h4: "extract_apollo_state ?h ?s1 = (Some (JObj [lot_entry ''1'', second_lot_1]), ?s1)"
    by code_simp
  have h5: "truthy (JObj [lot_entry ''1'', second_lot_1])" by simp
  have h6: "extract_lots_from_apollo no_repr (JObj [lot_entry ''1'', second_lot_1]) = Inr ?lots"
    by code_simp
  have h7: "scrape_page no_repr net_duplicate ?cfg None 1 0 {} new_scraper =
      ([(''1'', lot_1)], 1, {''1''}, ?s9, Finished)" by code_simp
  note t = duplicates_filtered [where fuel = 1 and r = no_repr and nt = net_duplicate
      and cfg = ?cfg and category = None and ?s0.0 = new_scraper
      and items = "[(''1'', lot_1)]" and ?s9.0 = ?s9 and e = None and page = 1
      and s = new_scraper and h = ?h and ?s1.0 = ?s1
      and apollo_state = "JObj [lot_entry ''1'', second_lot_1]" and ?s2.0 = ?s1
      and lots = ?lots and total_items = 0 and seen_ids = "{}" and out = "[(''1'', lot_1)]"
      and total_after = 1 and seen_after = "{''1''}" and s_after = ?s9 and c = Finished
      and turns = 0 and yielded = "[(''1'', lot_1)]" and ?s8.0 = ?s9 and ?e8.0 = None]
  have fd: "List.find (\<lambda>l'. get_item_id no_repr l' = Some ''1'') ?lots = Some lot_1"
    by code_simp
  have e0: "errors (stats new_scraper) = 0" by code_simp
  from t run have d: "distinct [''1'']" by simp
  from t h2 h3 h4 h5 h6 h7 have "errors (stats ?s9) = errors (stats new_scraper)
      \<and> {''1''} = {} \<union> page_ids no_repr ?lots"
    by blast
  with e0 have e9: "errors (stats ?s9) = 0" and pi: "page_ids no_repr ?lots = {''1''}"
    by simp_all
  have nl: "new_lots_of no_repr {} ?lots = [lot_1]" by code_simp
  from run e9 d fd pi nl show ?thesis by simp
qed
text \<open>
  C10, amended. When the state script holds a JSON object that lacks \<^verbatim>\<open>apollo.state\<close>
  or whose \<^verbatim>\<open>apollo.state\<close> is the empty object, the extraction returns the empty mapping,
  and the category ends at this page as it does when the script is missing: nothing is
  yielded, and the state is the one right after the fetch, so no error is counted.
\<close>

theorem empty_cache_ends_category:
  assumes "below_limit total_items (limit_of cfg)"
    and "fetch_page nt (build_url cfg category page) 3 s = (Some h, s1)"
    and "h = Doc Missing \<or>
         h = Doc (Parsed (JObj state_data))
         \<and> (dict_get state_data ''apollo.state'' = None
            \<or> dict_get state_data ''apollo.state'' = Some (JObj []))"
  shows "(h = Doc (Parsed (JObj state_data)) \<longrightarrow> extract_apollo_state h s1 = (Some (JObj []), s1))
     \<and> scrape_loop (Suc fuel) r nt cfg category page total_items seen_ids s = Some ([], s1, None)"
  using assms
  by (auto simp: scrape_loop.simps [of "Suc fuel"] scrape_page_def extract_apollo_state_def)

text \<open>A state script that is a JSON object without \<^verbatim>\<open>apollo.state\<close>: nothing is yielded, the
  only event is the GET of page 1, and no error is counted.\<close>

theorem empty_cache_ends_category_witness:
  "dict_get [(''other'', JInt 1)] ''apollo.state'' = None
   \<and> map_option (\<lambda>(out, s, e). (out, trace s, errors (stats s), e))
        (scrape_loop (Suc 0) no_repr net_no_cache (example_config [] False 20) None 1 0 {}
           new_scraper)
      = Some ([], [Get ''https://hibid.com/lots/?status=open&zip=78414&miles=50&apage=1&ipp=100''],
              0, None)"
proof -
  let ?cfg = "example_config [] False 20"
  let ?s1 = "snd (fetch_page net_no_cache (build_url ?cfg None 1) 3 new_scraper)"
  let ?h = "Doc (Parsed (JObj [(''other'', JInt 1)]))"
  have h1: "below_limit 0 (limit_of ?cfg)" by code_simp
  have h2: "fetch_page net_no_cache (build_url ?cfg None 1) 3 new_scraper = (Some ?h, ?s1)"
    by code_simp
  have h3: "dict_get [(''other'', JInt 1)] ''apollo.state'' = None" by code_simp
  have tr: "trace ?s1 =
      [Get ''https://hibid.com/lots/?status=open&zip=78414&miles=50&apage=1&ipp=100'']"
    by code_simp
  have er: "errors (stats ?s1) = 0" by code_simp
  from h3 have h3': "?h = Doc Missing \<or>
         ?h = Doc (Parsed (JObj [(''other'', JInt 1)]))
         \<and> (dict_get [(''other'', JInt 1)] ''apollo.state'' = None
            \<or> dict_get [(''other'', JInt 1)] ''apollo.state'' = Some (JObj []))"
    by simp
  from empty_cache_ends_category [OF h1 h2 h3', where fuel = 0 and r = no_repr and seen_ids = "{}"] h3 tr er
  show ?thesis by simp
qed

text \<open>
  A state script whose JSON is valid but not an object (here the empty array) has no
  \<^verbatim>\<open>apollo.state\<close> either; the extraction then returns nothing instead of the empty
  mapping, and counts an error.
\<close>

theorem non_object_state_counts_error:
  "fst (extract_apollo_state (Doc (Parsed (JArr []))) new_scraper) = None
   \<and> errors (stats (snd (extract_apollo_state (Doc (Parsed (JArr []))) new_scraper))) = 1
   \<and> errors (stats new_scraper) = 0"
  by code_simp

text \<open>
  C2. A page with one good lot and one lot without any identifier: the good lot is
  yielded, the other one is dropped by the filter that builds \<^verbatim>\<open>new_lots\<close>, and the
  error counter is still 0 at the end.
\<close>

theorem lot_without_id_not_counted:
  "map_option (\<lambda>(out, s, e). (map fst out, errors (stats s), e))
     (scrape_category 1 no_repr net_lot_without_id (example_config [] False 20) None new_scraper)
   = Some ([''1''], 0, None)"
  by code_simp

section \<open>The session\<close>

text \<open>
  C1. With test mode on and a test limit of 2, a session over two categories yields three
  items: the first category has a single lot, so the session counter is below the limit
  after it, and the second category counts its own items from zero again.
\<close>

theorem session_limit_exceeded:
  "map_option (\<lambda>(out, s, e). (map fst out, items_found (stats s), e))
     (scrape_all 1 no_repr net_small_then_large (example_config [''a'', ''b''] True 2) new_scraper)
   = Some ([''1'', ''2'', ''3''], 3, None)"
  by code_simp

text \<open>
  C9. With the categories \<^verbatim>\<open>a, b, a\<close> no delay separates the GET for the first category
  from the GET for the second: the first category equals the last one of the list, and the
  delay is skipped for it.
\<close>

theorem no_delay_after_repeated_category:
  "map_option (\<lambda>(out, s, e). trace s)
     (scrape_all 1 no_repr net_no_state (example_config [''a'', ''b'', ''a''] False 20) new_scraper)
   = Some [Get ''https://hibid.com/lots/a/?status=open&zip=78414&miles=50&apage=1&ipp=100'',
           Get ''https://hibid.com/lots/b/?status=open&zip=78414&miles=50&apage=1&ipp=100'',
           Delay 2 5,
           Get ''https://hibid.com/lots/a/?status=open&zip=78414&miles=50&apage=1&ipp=100'']"
  by code_simp

end
